theory Spec2Isabelle
  imports Main "HOL-Library.Product_Lexorder"
begin

section \<open>python-formatter-thing: tokens, statements and rules\<close>

text \<open>
  The program is a Python package of three modules: \<^verbatim>\<open>token_context.py\<close> (the statement
  segmenter and the insertion-line computation), \<^verbatim>\<open>engine.py\<close> (the rule matching loop) and
  \<^verbatim>\<open>fixers.py\<close> (the import relocation). Three collaborators come from the Python standard
  library and are arguments of the model: the tokenizer (\<^verbatim>\<open>tokenize.generate_tokens\<close>), the
  regular expression compiler (\<^verbatim>\<open>re.compile\<close>) and the parser (\<^verbatim>\<open>ast.parse\<close>).

  Python strings are modelled by \<^typ>\<open>string\<close>; a character stands for the code point of the
  same number, so the model covers the sources whose code points are below 256.
\<close>

subsection \<open>Errors\<close>

text \<open>
  \<^verbatim>\<open>ValueError\<close> is raised by \<^verbatim>\<open>check_paths\<close> with the message
  \<^verbatim>\<open>f"Invalid regex for rule {r.id}: {e}"\<close>; \<^verbatim>\<open>TokenError\<close> stands for what the tokenizer
  raises and \<^verbatim>\<open>SyntaxError\<close> for what the parser raises. \<open>Uncaught n\<close> is an exception of
  the class named \<open>n\<close> that \<^verbatim>\<open>re.compile\<close> raises and no \<^verbatim>\<open>except\<close> clause of the program
  catches.
\<close>

datatype error = ValueError string | TokenError | SyntaxError | Uncaught string

subsection \<open>Tokens\<close>

text \<open>
  The token types of \<^verbatim>\<open>tokenize\<close> that the code names, and \<open>OTHER n\<close> for every other
  type, \<open>n\<close> being its entry in \<^verbatim>\<open>token.tok_name\<close>.
\<close>

datatype tok_type =
  ENDMARKER | NAME | NUMBER | STRING | NEWLINE | INDENT | DEDENT | OP | COMMENT | NL
  | ENCODING | OTHER string

record token =
  tok_type :: tok_type
  tok_string :: string
  tok_start :: "nat \<times> nat"
  tok_end :: "nat \<times> nat"

fun tok_name :: "tok_type \<Rightarrow> string" where
  "tok_name ENDMARKER = ''ENDMARKER''"
| "tok_name NAME = ''NAME''"
| "tok_name NUMBER = ''NUMBER''"
| "tok_name STRING = ''STRING''"
| "tok_name NEWLINE = ''NEWLINE''"
| "tok_name INDENT = ''INDENT''"
| "tok_name DEDENT = ''DEDENT''"
| "tok_name OP = ''OP''"
| "tok_name COMMENT = ''COMMENT''"
| "tok_name NL = ''NL''"
| "tok_name ENCODING = ''ENCODING''"
| "tok_name (OTHER n) = n"

subsection \<open>Statements\<close>

record StatementContext =
  in_function :: bool
  block_stack :: "string list"

text \<open>\<^verbatim>\<open>has_any_block\<close>: \<^verbatim>\<open>s = set(self.block_stack); any(n in s for n in names)\<close>.\<close>

definition has_any_block :: "StatementContext \<Rightarrow> string list \<Rightarrow> bool" where
  "has_any_block c names = list_ex (\<lambda>n. n \<in> set (block_stack c)) names"

record TokenStatement =
  start_line :: nat
  start_col :: nat
  end_line :: nat
  end_col :: nat
  token_string :: string
  stmt_context :: StatementContext

definition KW_SUITE :: "string list" where
  "KW_SUITE = [''def'', ''class'', ''try'', ''except'', ''finally'', ''with'', ''for'',
               ''while'', ''if'', ''elif'', ''else'']"

text \<open>Python's \<^verbatim>\<open>a in b\<close> on two strings: \<open>a\<close> occurs in \<open>b\<close> as a substring.\<close>

fun str_in :: "string \<Rightarrow> string \<Rightarrow> bool" where
  "str_in a [] = (a = [])"
| "str_in a (c # cs) = (take (length a) (c # cs) = a \<or> str_in a cs)"

text \<open>\<^verbatim>\<open>" ".join(parts)\<close>.\<close>

fun join_with :: "string \<Rightarrow> string list \<Rightarrow> string" where
  "join_with sep [] = []"
| "join_with sep [x] = x"
| "join_with sep (x # y # ys) = x @ sep @ join_with sep (y # ys)"

definition keep_token :: "token \<Rightarrow> bool" where
  "keep_token t =
     (if tok_type t = ENCODING \<or> tok_type t = ENDMARKER then False
      else if tok_type t = STRING then True
      else True)"

definition fmt_token :: "token \<Rightarrow> string" where
  "fmt_token t =
     (let tname = tok_name (tok_type t) in
      if tok_type t = NAME then tname @ '':'' @ tok_string t
      else if tok_type t = OP then tname @ '':'' @ tok_string t
      else if tok_type t = STRING then tname @ '':<str>''
      else if tok_type t = NUMBER then tname @ '':<num>''
      else if tok_type t = NEWLINE then tname @ '':'' @ [CHR 0x5C, CHR ''n'']
      else if tok_type t = NL then tname @ '':'' @ [CHR 0x5C, CHR ''n'']
      else if tok_type t = INDENT then tname @ '':<indent>''
      else if tok_type t = DEDENT then tname @ '':<dedent>''
      else if tok_type t = COMMENT then tname @ '':<comment>''
      else tname @ '':'' @ tok_string t)"

text \<open>
  The type test that occurs three times in \<^verbatim>\<open>iter_statements\<close>:
  \<^verbatim>\<open>t.type in (NL, NEWLINE, INDENT, DEDENT, COMMENT)\<close>.
\<close>

definition is_layout :: "token \<Rightarrow> bool" where
  "is_layout t = (tok_type t \<in> {NL, NEWLINE, INDENT, DEDENT, COMMENT})"

subsection \<open>The segmenter \<^verbatim>\<open>iter_statements\<close>\<close>

text \<open>The local variables of \<^verbatim>\<open>iter_statements\<close>, which its loop and \<^verbatim>\<open>flush\<close> update.\<close>

record seg_state =
  statements :: "TokenStatement list"
  buf :: "token list"
  stmt_start :: "nat \<times> nat"
  paren_depth :: nat
  blocks :: "string list"
  seen_suite_kw :: "string option"
  suite_armed :: bool
  last_sig :: "token option"

definition seg_init :: seg_state where
  "seg_init = \<lparr>statements = [], buf = [], stmt_start = (1, 0), paren_depth = 0, blocks = [],
               seen_suite_kw = None, suite_armed = False, last_sig = None\<rparr>"

text \<open>
  \<^verbatim>\<open>flush(end_tok)\<close>: nothing is emitted when the buffer holds layout tokens only; otherwise
  one statement, which starts at \<^verbatim>\<open>stmt_start\<close> and ends at the end token, or at the last
  significant token when there is no end token.
\<close>

definition flush :: "token option \<Rightarrow> seg_state \<Rightarrow> seg_state" where
  "flush end_tok s =
     (let sig = filter (\<lambda>t. \<not> is_layout t) (buf s) in
      if sig = [] then s\<lparr>buf := []\<rparr>
      else
        let (sl, sc) = stmt_start s;
            (el, ec) = (case end_tok of None \<Rightarrow> tok_end (last sig) | Some e \<Rightarrow> tok_end e);
            ctx = \<lparr>in_function = (''def'' \<in> set (blocks s)), block_stack = blocks s\<rparr>;
            ts = join_with '' '' (map fmt_token (filter keep_token sig))
        in s\<lparr>statements := statements s @
                 [\<lparr>start_line = sl, start_col = sc, end_line = el, end_col = ec,
                   token_string = ts, stmt_context = ctx\<rparr>],
              buf := []\<rparr>)"

text \<open>The body of the loop \<^verbatim>\<open>for t in toks\<close>, one assignment group after the other.\<close>

text \<open>
  \<^verbatim>\<open>paren_depth = max(0, paren_depth - 1)\<close> is the subtraction of \<^typ>\<open>nat\<close>, which stops
  at 0.
\<close>

definition step_paren :: "token \<Rightarrow> seg_state \<Rightarrow> seg_state" where
  "step_paren t s =
     (if tok_type t = OP \<and> str_in (tok_string t) ''([{'' then s\<lparr>paren_depth := paren_depth s + 1\<rparr>
      else if tok_type t = OP \<and> str_in (tok_string t) '')]}''
        then s\<lparr>paren_depth := paren_depth s - 1\<rparr>
      else s)"

definition step_kw :: "token \<Rightarrow> seg_state \<Rightarrow> seg_state" where
  "step_kw t s =
     (if tok_type t = NAME \<and> tok_string t \<in> set KW_SUITE \<and> paren_depth s = 0
      then s\<lparr>seen_suite_kw := Some (tok_string t), suite_armed := False\<rparr> else s)"

definition step_async :: "token \<Rightarrow> seg_state \<Rightarrow> seg_state" where
  "step_async t s =
     (case last_sig s of
        None \<Rightarrow> s
      | Some l \<Rightarrow>
          if tok_type l = NAME \<and> tok_string l = ''async'' \<and> tok_type t = NAME
             \<and> tok_string t = ''def'' \<and> paren_depth s = 0
          then s\<lparr>seen_suite_kw := Some ''def'', suite_armed := False\<rparr> else s)"

definition step_arm :: "token \<Rightarrow> seg_state \<Rightarrow> seg_state" where
  "step_arm t s =
     (if tok_type t = OP \<and> tok_string t = '':'' \<and> paren_depth s = 0 \<and> seen_suite_kw s \<noteq> None
      then s\<lparr>suite_armed := True, last_sig := Some t\<rparr> else s)"

definition step_disarm :: "token \<Rightarrow> seg_state \<Rightarrow> seg_state" where
  "step_disarm t s =
     (if suite_armed s \<and> \<not> is_layout t then
        (if \<not> (tok_type t = OP \<and> tok_string t = '':'')
         then s\<lparr>suite_armed := False, seen_suite_kw := None\<rparr> else s)
      else s)"

definition step_indent :: "token \<Rightarrow> seg_state \<Rightarrow> seg_state" where
  "step_indent t s =
     (if tok_type t = INDENT then
        (let s1 = (if suite_armed s \<and> seen_suite_kw s \<noteq> None
                   then s\<lparr>blocks := blocks s @ [the (seen_suite_kw s)]\<rparr> else s)
         in s1\<lparr>seen_suite_kw := None, suite_armed := False\<rparr>)
      else if tok_type t = DEDENT then
        (let s1 = (if blocks s \<noteq> [] then s\<lparr>blocks := butlast (blocks s)\<rparr> else s)
         in s1\<lparr>seen_suite_kw := None, suite_armed := False\<rparr>)
      else s)"

definition step_buf :: "token \<Rightarrow> seg_state \<Rightarrow> seg_state" where
  "step_buf t s =
     (let s1 = (if buf s = [] then s\<lparr>stmt_start := tok_start t\<rparr> else s)
      in s1\<lparr>buf := buf s1 @ [t]\<rparr>)"

definition step_end :: "token \<Rightarrow> seg_state \<Rightarrow> seg_state" where
  "step_end t s =
     (if tok_type t = NEWLINE \<and> paren_depth s = 0 then flush (Some t) s else s)"

definition step_last :: "token \<Rightarrow> seg_state \<Rightarrow> seg_state" where
  "step_last t s = (if \<not> is_layout t then s\<lparr>last_sig := Some t\<rparr> else s)"

definition step :: "token \<Rightarrow> seg_state \<Rightarrow> seg_state" where
  "step t s =
     step_last t (step_end t (step_buf t (step_indent t (step_disarm t (step_arm t
       (step_async t (step_kw t (step_paren t s))))))))"

text \<open>\<^verbatim>\<open>iter_statements\<close> on the token list: the loop, the final \<^verbatim>\<open>flush(end_tok=None)\<close>.\<close>

definition run :: "token list \<Rightarrow> seg_state \<Rightarrow> seg_state" where
  "run toks s = fold step toks s"

definition segment :: "token list \<Rightarrow> TokenStatement list" where
  "segment toks = statements (flush None (run toks seg_init))"

text \<open>
  \<^verbatim>\<open>iter_statements(source)\<close>: the tokenizer is the argument \<open>generate_tokens\<close>; what it
  raises leaves \<^verbatim>\<open>iter_statements\<close> as it is.
\<close>

definition iter_statements ::
  "(string \<Rightarrow> token list option) \<Rightarrow> string \<Rightarrow> error + TokenStatement list" where
  "iter_statements generate_tokens source =
     (case generate_tokens source of None \<Rightarrow> Inl TokenError | Some toks \<Rightarrow> Inr (segment toks))"

subsection \<open>Rules (\<^verbatim>\<open>rules.py\<close>) and violations (\<^verbatim>\<open>types.py\<close>)\<close>

record MatchContext =
  mc_in_function :: "bool option"
  not_in_blocks :: "string list"

record MatchSpec =
  match_context :: MatchContext
  statement_token_regex :: string

record AutoFixSpec =
  action :: string
  dedupe :: bool

record Rule =
  rule_id :: string
  enabled :: bool
  severity :: string
  description :: string
  rule_match :: MatchSpec
  autofix :: "AutoFixSpec option"

record RuleSet =
  version :: int
  rules :: "Rule list"

record Violation =
  v_rule_id :: string
  v_message :: string
  v_path :: string
  v_line :: nat
  v_col :: nat
  v_severity :: string

record CheckResults =
  violations :: "Violation list"
  files_checked :: nat

subsection \<open>The engine \<^verbatim>\<open>check_paths\<close>\<close>

text \<open>
  \<^verbatim>\<open>re.compile\<close> is the argument \<open>re_compile\<close>. It gives \<open>Inl (ReError e)\<close> when it raises
  \<^verbatim>\<open>re.error\<close> with message \<open>e\<close>, \<open>Inl (OtherException n)\<close> when it raises an exception of
  another class, named \<open>n\<close> (\<^verbatim>\<open>OverflowError\<close> for a repetition count that is too large,
  \<^verbatim>\<open>RecursionError\<close> for a pattern that is nested too deep), and otherwise \<open>Inr rx\<close>, where
  \<open>rx s\<close> tells whether \<^verbatim>\<open>rx.search(s)\<close> finds a match. A compiled rule is the triple
  \<^verbatim>\<open>(r.id, rx, r)\<close>.
\<close>

datatype re_exception = ReError string | OtherException string

type_synonym regex = "string \<Rightarrow> bool"
type_synonym compiled_rule = "string \<times> regex \<times> Rule"

text \<open>
  The handler \<^verbatim>\<open>except re.error as e: raise ValueError(...) from e\<close> of the loop over the
  enabled rules: an exception of another class passes through it as it is.
\<close>

fun compile_failure :: "Rule \<Rightarrow> re_exception \<Rightarrow> error" where
  "compile_failure r (ReError e) =
     ValueError (''Invalid regex for rule '' @ rule_id r @ '': '' @ e)"
| "compile_failure r (OtherException n) = Uncaught n"

fun compile_rules ::
  "(string \<Rightarrow> re_exception + regex) \<Rightarrow> Rule list \<Rightarrow> compiled_rule list
   \<Rightarrow> error + compiled_rule list" where
  "compile_rules re_compile [] compiled = Inr compiled"
| "compile_rules re_compile (r # rs) compiled =
     (case re_compile (statement_token_regex (rule_match r)) of
        Inl x \<Rightarrow> Inl (compile_failure r x)
      | Inr rx \<Rightarrow> compile_rules re_compile rs (compiled @ [(rule_id r, rx, r)]))"

definition mk_violation :: "string \<Rightarrow> TokenStatement \<Rightarrow> Rule \<Rightarrow> Violation" where
  "mk_violation fp st rule =
     \<lparr>v_rule_id = rule_id rule, v_message = description rule, v_path = fp,
      v_line = start_line st, v_col = start_col st + 1, v_severity = severity rule\<rparr>"

text \<open>The loop \<^verbatim>\<open>for _rid, rx, rule in compiled\<close> with its three \<^verbatim>\<open>continue\<close>s.\<close>

fun rule_loop ::
  "string \<Rightarrow> TokenStatement \<Rightarrow> compiled_rule list \<Rightarrow> Violation list \<Rightarrow> Violation list" where
  "rule_loop fp st [] vs = vs"
| "rule_loop fp st ((rid, rx, rule) # cs) vs =
     (let ctx = match_context (rule_match rule) in
      if mc_in_function ctx \<noteq> None
         \<and> in_function (stmt_context st) \<noteq> the (mc_in_function ctx)
        then rule_loop fp st cs vs
      else if not_in_blocks ctx \<noteq> [] \<and> has_any_block (stmt_context st) (not_in_blocks ctx)
        then rule_loop fp st cs vs
      else if \<not> rx (token_string st) then rule_loop fp st cs vs
      else rule_loop fp st cs (vs @ [mk_violation fp st rule]))"

text \<open>The loop \<^verbatim>\<open>for st in stmts\<close>.\<close>

fun stmt_loop ::
  "string \<Rightarrow> compiled_rule list \<Rightarrow> TokenStatement list \<Rightarrow> Violation list \<Rightarrow> Violation list" where
  "stmt_loop fp compiled [] vs = vs"
| "stmt_loop fp compiled (st # sts) vs = stmt_loop fp compiled sts (rule_loop fp st compiled vs)"

text \<open>
  The loop \<^verbatim>\<open>for fp in _iter_files(paths, exts)\<close>. The list \<open>files\<close> holds the paths that
  \<^verbatim>\<open>_iter_files\<close> yields; \<open>read_text fp\<close> is the text of the file, or \<open>None\<close> when
  \<^verbatim>\<open>fp.read_text\<close> raises \<^verbatim>\<open>UnicodeDecodeError\<close>.
\<close>

fun file_loop ::
  "(string \<Rightarrow> token list option) \<Rightarrow> (string \<Rightarrow> string option) \<Rightarrow> compiled_rule list
   \<Rightarrow> string list \<Rightarrow> CheckResults \<Rightarrow> error + CheckResults" where
  "file_loop generate_tokens read_text compiled [] res = Inr res"
| "file_loop generate_tokens read_text compiled (fp # fps) res =
     (case read_text fp of
        None \<Rightarrow> file_loop generate_tokens read_text compiled fps res
      | Some src \<Rightarrow>
          (case iter_statements generate_tokens src of
             Inl e \<Rightarrow> Inl e
           | Inr stmts \<Rightarrow>
               file_loop generate_tokens read_text compiled fps
                 \<lparr>violations = stmt_loop fp compiled stmts (violations res),
                  files_checked = files_checked res + 1\<rparr>))"

definition check_paths ::
  "(string \<Rightarrow> re_exception + regex) \<Rightarrow> (string \<Rightarrow> token list option) \<Rightarrow> (string \<Rightarrow> string option)
   \<Rightarrow> string list \<Rightarrow> RuleSet \<Rightarrow> error + CheckResults" where
  "check_paths re_compile generate_tokens read_text files ruleset =
     (case compile_rules re_compile (filter enabled (rules ruleset)) [] of
        Inl e \<Rightarrow> Inl e
      | Inr compiled \<Rightarrow>
          file_loop generate_tokens read_text compiled files
            \<lparr>violations = [], files_checked = 0\<rparr>)"


section \<open>The import relocation (\<^verbatim>\<open>fixers.py\<close>)\<close>

subsection \<open>The methods of \<^verbatim>\<open>str\<close> that the fixer calls\<close>

text \<open>
  \<^verbatim>\<open>str.isspace\<close> and the line boundaries of \<^verbatim>\<open>str.splitlines\<close>, for the code points
  below 256.
\<close>

definition is_space :: "char \<Rightarrow> bool" where
  "is_space c = (c \<in> set [CHR 0x09, CHR 0x0A, CHR 0x0B, CHR 0x0C, CHR 0x0D, CHR 0x1C, CHR 0x1D,
                           CHR 0x1E, CHR 0x1F, CHR 0x20, CHR 0x85, CHR 0xA0])"

definition is_linebreak :: "char \<Rightarrow> bool" where
  "is_linebreak c = (c \<in> set [CHR 0x0A, CHR 0x0B, CHR 0x0C, CHR 0x0D, CHR 0x1C, CHR 0x1D,
                               CHR 0x1E, CHR 0x85])"

definition strip :: "string \<Rightarrow> string" where
  "strip s = rev (dropWhile is_space (rev (dropWhile is_space s)))"

text \<open>\<^verbatim>\<open>s.rstrip("\n")\<close>.\<close>

definition rstrip_nl :: "string \<Rightarrow> string" where
  "rstrip_nl s = rev (dropWhile (\<lambda>c. c = CHR 0x0A) (rev s))"

definition startswith :: "string \<Rightarrow> string \<Rightarrow> bool" where
  "startswith s p = (take (length p) s = p)"

definition endswith :: "string \<Rightarrow> string \<Rightarrow> bool" where
  "endswith s p = (length p \<le> length s \<and> drop (length s - length p) s = p)"

text \<open>
  \<^verbatim>\<open>s.splitlines(keepends=True)\<close>: \<open>cur\<close> is the line read so far; a carriage return
  followed by a line feed is one boundary.
\<close>

fun splitlines_from :: "string \<Rightarrow> string \<Rightarrow> string list" where
  "splitlines_from cur [] = (if cur = [] then [] else [cur])"
| "splitlines_from cur [c] = [cur @ [c]]"
| "splitlines_from cur (c # d # cs) =
     (if c = CHR 0x0D \<and> d = CHR 0x0A then (cur @ [c, d]) # splitlines_from [] cs
      else if is_linebreak c then (cur @ [c]) # splitlines_from [] (d # cs)
      else splitlines_from (cur @ [c]) (d # cs))"

definition splitlines :: "string \<Rightarrow> string list" where
  "splitlines s = splitlines_from [] s"

subsection \<open>\<^verbatim>\<open>textwrap.dedent\<close>\<close>

text \<open>
  The lines of \<^verbatim>\<open>dedent\<close> are those that the line feed separates (the \<^verbatim>\<open>^\<close> and \<^verbatim>\<open>$\<close> of
  its multi-line regular expressions). A line of blanks and tabs only becomes empty; the
  margin is the longest common prefix of the indentations of the other non-empty lines, and
  it is removed from every line that starts with it.
\<close>

fun split_nl :: "string \<Rightarrow> string list" where
  "split_nl [] = [[]]"
| "split_nl (c # cs) =
     (if c = CHR 0x0A then [] # split_nl cs
      else (case split_nl cs of [] \<Rightarrow> [[c]] | x # xs \<Rightarrow> (c # x) # xs))"

definition is_blank_or_tab :: "char \<Rightarrow> bool" where
  "is_blank_or_tab c = (c = CHR 0x20 \<or> c = CHR 0x09)"

fun common_prefix :: "string \<Rightarrow> string \<Rightarrow> string" where
  "common_prefix (x # xs) (y # ys) = (if x = y then x # common_prefix xs ys else [])"
| "common_prefix _ _ = []"

definition margin_step :: "string \<Rightarrow> string option \<Rightarrow> string option" where
  "margin_step indent margin =
     (case margin of
        None \<Rightarrow> Some indent
      | Some m \<Rightarrow>
          if startswith indent m then Some m
          else if startswith m indent then Some indent
          else Some (common_prefix m indent))"

definition dedent :: "string \<Rightarrow> string" where
  "dedent text =
     (let segs = map (\<lambda>l. if l \<noteq> [] \<and> list_all is_blank_or_tab l then [] else l)
                   (split_nl text);
          indents = map (takeWhile is_blank_or_tab)
                      (filter (\<lambda>l. dropWhile is_blank_or_tab l \<noteq> []) segs);
          margin = fold margin_step indents None
      in case margin of
           None \<Rightarrow> join_with [CHR 0x0A] segs
         | Some m \<Rightarrow>
             if m = [] then join_with [CHR 0x0A] segs
             else join_with [CHR 0x0A]
                    (map (\<lambda>l. if startswith l m then drop (length m) l else l) segs))"

subsection \<open>\<^verbatim>\<open>compute_insertion_line_for_imports\<close>\<close>

text \<open>
  \<^verbatim>\<open>_RE_PEP263.search(line)\<close> for the pattern \<^verbatim>\<open>coding[:=]\s*([-\w.]+)\<close>: the word
  \<^verbatim>\<open>coding\<close>, a colon or an equals sign, white space, and then at least one word character,
  hyphen or dot. \<open>is_word\<close> is the class \<^verbatim>\<open>\w\<close> of a \<^verbatim>\<open>str\<close> pattern below 256.
\<close>

definition is_word :: "char \<Rightarrow> bool" where
  "is_word c =
     (let n = (of_char c :: nat) in
      (48 \<le> n \<and> n \<le> 57) \<or> (65 \<le> n \<and> n \<le> 90) \<or> n = 95 \<or> (97 \<le> n \<and> n \<le> 122)
      \<or> n \<in> set [170, 178, 179, 181, 185, 186, 188, 189, 190]
      \<or> (192 \<le> n \<and> n \<le> 214) \<or> (216 \<le> n \<and> n \<le> 246) \<or> 248 \<le> n)"

definition pep263_here :: "string \<Rightarrow> bool" where
  "pep263_here s =
     (startswith s ''coding'' \<and>
      (case drop 6 s of
         [] \<Rightarrow> False
       | c # rest \<Rightarrow>
           (c = CHR '':'' \<or> c = CHR ''='') \<and>
           (case dropWhile is_space rest of
              [] \<Rightarrow> False
            | w # _ \<Rightarrow> w = CHR ''-'' \<or> w = CHR ''.'' \<or> is_word w)))"

fun pep263_search :: "string \<Rightarrow> bool" where
  "pep263_search [] = False"
| "pep263_search (c # cs) = (pep263_here (c # cs) \<or> pep263_search cs)"

text \<open>The loop \<^verbatim>\<open>while i < len(lines) and lines[i].strip() == "": i += 1\<close>.\<close>

function skip_blank :: "string list \<Rightarrow> nat \<Rightarrow> nat" where
  "skip_blank lines i =
     (if i < length lines \<and> strip (lines ! i) = [] then skip_blank lines (i + 1) else i)"
  by pat_completeness auto
termination
  by (relation "measure (\<lambda>(lines, i). length lines - i)") auto

declare skip_blank.simps [simp del]

text \<open>
  The loop \<^verbatim>\<open>for j in range(i, min(i + 2, len(lines)))\<close> runs over the two indices that
  follow the value \<open>i\<close> has before the loop.
\<close>

definition compute_insertion_line_for_imports :: "string \<Rightarrow> nat option \<Rightarrow> nat" where
  "compute_insertion_line_for_imports source module_docstring_end =
     (let lines = splitlines source;
          i0 = (if 0 < length lines \<and> startswith (lines ! 0) ''#!'' then 1 else 0);
          i1 = (if i0 < length lines \<and> pep263_search (lines ! i0) then i0 + 1 else i0);
          i2 = (if i0 + 1 < length lines \<and> pep263_search (lines ! (i0 + 1)) then i0 + 2 else i1);
          i3 = skip_blank lines i2
      in case module_docstring_end of
           None \<Rightarrow> i3
         | Some d \<Rightarrow> if 0 < d then skip_blank lines (max i3 d) else i3)"

subsection \<open>The syntax tree and \<^verbatim>\<open>_ImportCollector\<close>\<close>

text \<open>
  The statements of \<^verbatim>\<open>ast\<close>, as far as the collector tells them apart. Every statement has
  its \<^verbatim>\<open>lineno\<close> (from 1) and its \<^verbatim>\<open>end_lineno\<close>, which is \<open>None\<close> where the attribute is
  absent. A statement that has a suite holds the statements that \<^verbatim>\<open>generic_visit\<close> meets
  below it, in the order of the visit: for \<^verbatim>\<open>Try\<close> the body, the handlers, \<^verbatim>\<open>orelse\<close> and
  \<^verbatim>\<open>finalbody\<close>. \<open>Expr l e b\<close> is an expression statement, \<open>b\<close> telling whether its value is
  a string constant. \<open>TryStar\<close> is the statement \<^verbatim>\<open>try\<close> ... \<^verbatim>\<open>except*\<close> of Python 3.11, whose
  class \<^verbatim>\<open>ast.TryStar\<close> is not a subclass of \<^verbatim>\<open>ast.Try\<close>. \<open>Other\<close> is any other class for
  which the collector has no method of its own (\<^verbatim>\<open>If\<close>, \<^verbatim>\<open>For\<close>, \<^verbatim>\<open>While\<close>, \<^verbatim>\<open>With\<close>,
  \<^verbatim>\<open>ClassDef\<close>, \<^verbatim>\<open>Assign\<close>, \<^verbatim>\<open>Return\<close> and so on).
\<close>

datatype stmt =
    Import nat "nat option"
  | ImportFrom nat "nat option"
  | FunctionDef nat "nat option" "stmt list"
  | AsyncFunctionDef nat "nat option" "stmt list"
  | Try nat "nat option" "stmt list"
  | TryStar nat "nat option" "stmt list"
  | Expr nat "nat option" bool
  | Other nat "nat option" "stmt list"

fun lineno :: "stmt \<Rightarrow> nat" where
  "lineno (Import l e) = l"
| "lineno (ImportFrom l e) = l"
| "lineno (FunctionDef l e b) = l"
| "lineno (AsyncFunctionDef l e b) = l"
| "lineno (Try l e b) = l"
| "lineno (TryStar l e b) = l"
| "lineno (Expr l e b) = l"
| "lineno (Other l e b) = l"

fun end_lineno :: "stmt \<Rightarrow> nat option" where
  "end_lineno (Import l e) = e"
| "end_lineno (ImportFrom l e) = e"
| "end_lineno (FunctionDef l e b) = e"
| "end_lineno (AsyncFunctionDef l e b) = e"
| "end_lineno (Try l e b) = e"
| "end_lineno (TryStar l e b) = e"
| "end_lineno (Expr l e b) = e"
| "end_lineno (Other l e b) = e"

text \<open>\<^verbatim>\<open>getattr(n, "end_lineno", n.lineno)\<close>.\<close>

definition end_lineno_or_lineno :: "stmt \<Rightarrow> nat" where
  "end_lineno_or_lineno n = (case end_lineno n of None \<Rightarrow> lineno n | Some e \<Rightarrow> e)"

record collector =
  c_in_function :: int
  c_in_try :: int
  offending :: "stmt list"
  module_docstring_end :: "nat option"

definition collector_init :: collector where
  "collector_init = \<lparr>c_in_function = 0, c_in_try = 0, offending = [], module_docstring_end = None\<rparr>"

text \<open>
  \<open>visit\<close> is \<^verbatim>\<open>NodeVisitor.visit\<close> with the methods of the collector, \<open>visit_all\<close> the loop
  of \<^verbatim>\<open>generic_visit\<close> over the statements below a node. The collector has no method
  \<^verbatim>\<open>visit_TryStar\<close>, so \<^verbatim>\<open>NodeVisitor.visit\<close> calls \<^verbatim>\<open>generic_visit\<close> on that node.
\<close>

fun visit :: "stmt \<Rightarrow> collector \<Rightarrow> collector"
  and visit_all :: "stmt list \<Rightarrow> collector \<Rightarrow> collector" where
  "visit (Import l e) c =
     (if 0 < c_in_function c \<and> c_in_try c = 0 then c\<lparr>offending := offending c @ [Import l e]\<rparr>
      else c)"
| "visit (ImportFrom l e) c =
     (if 0 < c_in_function c \<and> c_in_try c = 0
      then c\<lparr>offending := offending c @ [ImportFrom l e]\<rparr> else c)"
| "visit (FunctionDef l e body) c =
     (let c1 = visit_all body (c\<lparr>c_in_function := c_in_function c + 1\<rparr>)
      in c1\<lparr>c_in_function := c_in_function c1 - 1\<rparr>)"
| "visit (AsyncFunctionDef l e body) c =
     (let c1 = visit_all body (c\<lparr>c_in_function := c_in_function c + 1\<rparr>)
      in c1\<lparr>c_in_function := c_in_function c1 - 1\<rparr>)"
| "visit (Try l e body) c =
     (let c1 = visit_all body (c\<lparr>c_in_try := c_in_try c + 1\<rparr>)
      in c1\<lparr>c_in_try := c_in_try c1 - 1\<rparr>)"
| "visit (TryStar l e body) c = visit_all body c"
| "visit (Expr l e b) c = c"
| "visit (Other l e body) c = visit_all body c"
| "visit_all [] c = c"
| "visit_all (s # ss) c = visit_all ss (visit s c)"

text \<open>The module is the list \<^verbatim>\<open>tree.body\<close>.\<close>

definition is_docstring :: "stmt list \<Rightarrow> bool" where
  "is_docstring body = (case body of Expr l e True # _ \<Rightarrow> True | _ \<Rightarrow> False)"

definition visit_Module :: "stmt list \<Rightarrow> collector \<Rightarrow> collector" where
  "visit_Module body c =
     visit_all body
       (if is_docstring body then c\<lparr>module_docstring_end := Some (end_lineno_or_lineno (hd body))\<rparr>
        else c)"


subsection \<open>\<^verbatim>\<open>_fix_move_imports_to_top\<close>\<close>

record ImportSpan =
  sp_lineno :: nat
  sp_end_lineno :: nat
  sp_text :: string

text \<open>
  The span of an offending node: \<^verbatim>\<open>end_lineno = getattr(n, "end_lineno", None) or lineno\<close>,
  and the text \<^verbatim>\<open>textwrap.dedent("".join(lines[lineno - 1 : end_lineno]))\<close>. The parser
  numbers lines from 1, so \<^verbatim>\<open>lineno - 1\<close> is not negative.
\<close>

definition span_of :: "string list \<Rightarrow> stmt \<Rightarrow> ImportSpan" where
  "span_of lines n =
     (let l = lineno n;
          e = (case end_lineno n of None \<Rightarrow> l | Some e' \<Rightarrow> if e' = 0 then l else e')
      in \<lparr>sp_lineno = l, sp_end_lineno = e,
          sp_text = dedent (concat (take (e - (l - 1)) (drop (l - 1) lines)))\<rparr>)"

text \<open>The loop that fills \<^verbatim>\<open>moved\<close>, with the set \<^verbatim>\<open>seen\<close>.\<close>

fun moved_loop :: "bool \<Rightarrow> ImportSpan list \<Rightarrow> string list \<Rightarrow> string set \<Rightarrow> string list" where
  "moved_loop dd [] moved seen = moved"
| "moved_loop dd (sp # sps) moved seen =
     (let k = strip (sp_text sp) in
      if k = [] then moved_loop dd sps moved seen
      else if dd \<and> k \<in> seen then moved_loop dd sps moved seen
      else moved_loop dd sps (moved @ [rstrip_nl (sp_text sp) @ [CHR 0x0A]]) (insert k seen))"

text \<open>
  \<^verbatim>\<open>sorted({(sp.lineno, sp.end_lineno) for sp in spans}, ..., reverse=True)\<close>: the pairs
  without repetition, in descending lexicographic order.
\<close>

definition to_remove :: "ImportSpan list \<Rightarrow> (nat \<times> nat) list" where
  "to_remove spans = rev (sort (remdups (map (\<lambda>sp. (sp_lineno sp, sp_end_lineno sp)) spans)))"

text \<open>
  One round of the deletion loop: \<^verbatim>\<open>del lines[start - 1 : end]\<close>, which deletes nothing
  when the slice is empty, and then the deletion of the line that is now at \<^verbatim>\<open>start - 1\<close>
  when it is blank.
\<close>

definition del_span :: "nat \<times> nat \<Rightarrow> string list \<Rightarrow> string list" where
  "del_span se lines =
     (let start = fst se; end = snd se;
          lines1 = (if start - 1 < end then take (start - 1) lines @ drop end lines else lines)
      in if start - 1 < length lines1 \<and> strip (lines1 ! (start - 1)) = []
         then take (start - 1) lines1 @ drop (start - 1 + 1) lines1 else lines1)"

text \<open>The loop over \<^verbatim>\<open>body[start_idx:]\<close> that computes \<^verbatim>\<open>top_import_end\<close>.\<close>

fun is_import :: "stmt \<Rightarrow> bool" where
  "is_import (Import l e) = True"
| "is_import (ImportFrom l e) = True"
| "is_import _ = False"

fun top_import_loop :: "stmt list \<Rightarrow> nat option \<Rightarrow> nat option" where
  "top_import_loop [] t = t"
| "top_import_loop (s # ss) t =
     (if is_import s
      then top_import_loop ss
             (Some (max (case t of None \<Rightarrow> 0 | Some v \<Rightarrow> v) (end_lineno_or_lineno s)))
      else t)"

text \<open>
  The insertion point: the result of \<^verbatim>\<open>compute_insertion_line_for_imports\<close> on the text
  that remains, moved behind the leading imports of the module, and at most the number of
  lines that remain.
\<close>

definition insertion_index :: "stmt list \<Rightarrow> nat option \<Rightarrow> string list \<Rightarrow> nat" where
  "insertion_index body doc_end lines1 =
     (let insert_i0 = compute_insertion_line_for_imports (concat lines1) doc_end;
          start_idx = (if is_docstring body then 1 else 0);
          top_import_end = top_import_loop (drop start_idx body) None;
          insert_i1 = (case top_import_end of None \<Rightarrow> insert_i0 | Some t \<Rightarrow> max insert_i0 t)
      in min insert_i1 (length lines1))"

text \<open>
  The inserted block: the moved texts, with an empty line before them when the line before
  the insertion point is not blank, and one after them when the line at the insertion point
  is not blank.
\<close>

definition insertion_block :: "string list \<Rightarrow> nat \<Rightarrow> string list \<Rightarrow> string" where
  "insertion_block lines1 insert_i moved =
     (let prefix = (if 0 < insert_i \<and> strip (lines1 ! (insert_i - 1)) \<noteq> [] then [CHR 0x0A]
                    else []);
          suffix = (if insert_i < length lines1 \<and> strip (lines1 ! insert_i) \<noteq> []
                    then [CHR 0x0A] else [])
      in prefix @ concat moved @ suffix)"

text \<open>\<^verbatim>\<open>if out and not out.endswith("\n"): out += "\n"\<close>.\<close>

definition ensure_newline :: "string \<Rightarrow> string" where
  "ensure_newline out = (if out \<noteq> [] \<and> \<not> endswith out [CHR 0x0A] then out @ [CHR 0x0A] else out)"

text \<open>
  The part of the function that follows \<^verbatim>\<open>if not moved: return source\<close>: deletion,
  insertion point, insertion and the final line break.
\<close>

definition relocate ::
  "stmt list \<Rightarrow> nat option \<Rightarrow> ImportSpan list \<Rightarrow> string list \<Rightarrow> string list \<Rightarrow> string" where
  "relocate body doc_end spans moved lines =
     (let lines1 = fold del_span (to_remove spans) lines;
          insert_i = insertion_index body doc_end lines1;
          lines2 = take insert_i lines1 @ [insertion_block lines1 insert_i moved]
                     @ drop insert_i lines1
      in ensure_newline (concat lines2))"

text \<open>
  \<^verbatim>\<open>ast.parse\<close> is the argument \<open>parse\<close>, which gives the body of the module, or \<open>None\<close>
  when it raises \<^verbatim>\<open>SyntaxError\<close>.
\<close>

definition fix_move_imports_to_top ::
  "(string \<Rightarrow> stmt list option) \<Rightarrow> string \<Rightarrow> bool \<Rightarrow> error + string" where
  "fix_move_imports_to_top parse source dd =
     (case parse source of
        None \<Rightarrow> Inl SyntaxError
      | Some body \<Rightarrow>
          let col = visit_Module body collector_init in
          if offending col = [] then Inr source
          else
            let lines = splitlines source;
                spans = map (span_of lines) (offending col);
                moved = moved_loop dd spans [] {}
            in if moved = [] then Inr source
               else Inr (relocate body (module_docstring_end col) spans moved lines))"

subsection \<open>\<^verbatim>\<open>apply_fixes\<close>\<close>

text \<open>The first loop: the distinct actions of the enabled rules that have an autofix.\<close>

fun collect_actions ::
  "Rule list \<Rightarrow> (string \<times> bool) list \<Rightarrow> string set \<Rightarrow> (string \<times> bool) list" where
  "collect_actions [] actions seen_actions = actions"
| "collect_actions (r # rs) actions seen_actions =
     (case autofix r of
        None \<Rightarrow> collect_actions rs actions seen_actions
      | Some af \<Rightarrow>
          if \<not> enabled r then collect_actions rs actions seen_actions
          else if action af \<in> seen_actions then collect_actions rs actions seen_actions
          else collect_actions rs (actions @ [(action af, dedupe af)])
                 (insert (action af) seen_actions))"

text \<open>The second loop; an unknown action is skipped whatever \<^verbatim>\<open>unsafe\<close> is.\<close>

fun run_actions ::
  "(string \<Rightarrow> stmt list option) \<Rightarrow> bool \<Rightarrow> (string \<times> bool) list \<Rightarrow> string \<Rightarrow> error + string" where
  "run_actions parse unsafe [] out = Inr out"
| "run_actions parse unsafe ((a, dd) # as) out =
     (if a = ''move_imports_to_top'' then
        (case fix_move_imports_to_top parse out dd of
           Inl e \<Rightarrow> Inl e
         | Inr out' \<Rightarrow> run_actions parse unsafe as out')
      else if \<not> unsafe then run_actions parse unsafe as out
      else run_actions parse unsafe as out)"

definition apply_fixes ::
  "(string \<Rightarrow> stmt list option) \<Rightarrow> string \<Rightarrow> RuleSet \<Rightarrow> bool \<Rightarrow> error + string" where
  "apply_fixes parse source ruleset unsafe =
     run_actions parse unsafe (collect_actions (rules ruleset) [] {}) source"


section \<open>The specification's reading of the engine, and example inputs\<close>

text \<open>
  What the specification says of one statement and one enabled rule: a violation is emitted
  when the \<^verbatim>\<open>in_function\<close> filter is unset or equal to the flag of the statement, no
  excluded block is on the block stack of the statement, and the pattern finds a match in
  the fingerprint.
\<close>

definition pattern_of :: "Rule \<Rightarrow> string" where
  "pattern_of r = statement_token_regex (rule_match r)"

definition spec_emits :: "regex \<Rightarrow> Rule \<Rightarrow> TokenStatement \<Rightarrow> bool" where
  "spec_emits rx rule st =
     (let ctx = match_context (rule_match rule) in
      (mc_in_function ctx = None \<or> mc_in_function ctx = Some (in_function (stmt_context st)))
      \<and> list_all (\<lambda>tag. tag \<notin> set (block_stack (stmt_context st))) (not_in_blocks ctx)
      \<and> rx (token_string st))"

definition emitted ::
  "(string \<Rightarrow> re_exception + regex) \<Rightarrow> string \<Rightarrow> TokenStatement \<Rightarrow> Rule \<Rightarrow> Violation list" where
  "emitted re_compile fp st r =
     (if spec_emits (projr (re_compile (pattern_of r))) r st then [mk_violation fp st r] else [])"

text \<open>
  The first enabled rule whose pattern does not compile, whatever \<^verbatim>\<open>re.compile\<close> raises
  on it.
\<close>

definition first_invalid ::
  "(string \<Rightarrow> re_exception + regex) \<Rightarrow> RuleSet \<Rightarrow> Rule option" where
  "first_invalid re_compile ruleset =
     find (\<lambda>r. isl (re_compile (pattern_of r))) (filter enabled (rules ruleset))"

text \<open>
  Example inputs. \<open>re_literal\<close> is \<^verbatim>\<open>re.compile\<close> on the patterns of the examples: a
  pattern without special characters finds a match where it occurs as a substring, on the
  pattern \<^verbatim>\<open>(\<close> it raises \<^verbatim>\<open>re.error\<close>, and on the pattern \<^verbatim>\<open>a{99999999999999999999}\<close> it
  raises \<^verbatim>\<open>OverflowError\<close> (the repetition number is too large). The token lists are those
  of \<^verbatim>\<open>tokenize\<close> for the sources named beside them.
\<close>

definition tk :: "tok_type \<Rightarrow> string \<Rightarrow> nat \<times> nat \<Rightarrow> nat \<times> nat \<Rightarrow> token" where
  "tk ty s b e = \<lparr>tok_type = ty, tok_string = s, tok_start = b, tok_end = e\<rparr>"

definition re_literal :: "string \<Rightarrow> re_exception + regex" where
  "re_literal p =
     (if p = ''('' then Inl (ReError ''missing ), unterminated subpattern at position 0'')
      else if p = ''a{99999999999999999999}'' then Inl (OtherException ''OverflowError'')
      else Inr (str_in p))"

definition rule_pyfmt001 :: Rule where
  "rule_pyfmt001 = \<lparr>rule_id = ''PYFMT001'', enabled = True, severity = ''error'',
    description = ''import inside a function'',
    rule_match = \<lparr>match_context = \<lparr>mc_in_function = Some True, not_in_blocks = [''try'']\<rparr>,
                  statement_token_regex = ''NAME:import''\<rparr>,
    autofix = Some \<lparr>action = ''move_imports_to_top'', dedupe = True\<rparr>\<rparr>"

definition rule_broken :: Rule where
  "rule_broken = \<lparr>rule_id = ''BROKEN'', enabled = True, severity = ''info'',
    description = ''a pattern that does not compile'',
    rule_match = \<lparr>match_context = \<lparr>mc_in_function = None, not_in_blocks = []\<rparr>,
                  statement_token_regex = ''(''\<rparr>,
    autofix = None\<rparr>"

definition rule_overflow :: Rule where
  "rule_overflow = \<lparr>rule_id = ''OVERFLOW'', enabled = True, severity = ''info'',
    description = ''a repetition count that is too large'',
    rule_match = \<lparr>match_context = \<lparr>mc_in_function = None, not_in_blocks = []\<rparr>,
                  statement_token_regex = ''a{99999999999999999999}''\<rparr>,
    autofix = None\<rparr>"

definition rules_example :: RuleSet where
  "rules_example = \<lparr>version = 1, rules = [rule_pyfmt001]\<rparr>"

definition rules_broken :: RuleSet where
  "rules_broken = \<lparr>version = 1, rules = [rule_pyfmt001, rule_broken]\<rparr>"

definition rules_overflow :: RuleSet where
  "rules_overflow = \<lparr>version = 1, rules = [rule_pyfmt001, rule_overflow]\<rparr>"

definition src_def_import :: string where
  "src_def_import = ''def f():\<newline>    import os\<newline>''"

definition toks_def_import :: "token list" where
  "toks_def_import =
     [tk NAME ''def'' (1, 0) (1, 3),
      tk NAME ''f'' (1, 4) (1, 5),
      tk OP ''('' (1, 5) (1, 6),
      tk OP '')'' (1, 6) (1, 7),
      tk OP '':'' (1, 7) (1, 8),
      tk NEWLINE [CHR 0x0A] (1, 8) (1, 9),
      tk INDENT ''    '' (2, 0) (2, 4),
      tk NAME ''import'' (2, 4) (2, 10),
      tk NAME ''os'' (2, 11) (2, 13),
      tk NEWLINE [CHR 0x0A] (2, 13) (2, 14),
      tk DEDENT [] (3, 0) (3, 0),
      tk ENDMARKER [] (3, 0) (3, 0)]"

definition tokenize_example :: "string \<Rightarrow> token list option" where
  "tokenize_example s = (if s = src_def_import then Some toks_def_import else None)"

definition read_example :: "string \<Rightarrow> string option" where
  "read_example fp = (if fp = ''a.py'' then Some src_def_import else None)"

text \<open>
  A rule without context filter whose pattern is the empty string, which finds a match in
  every string. \<open>toks_unbalanced\<close> is the token list of \<^verbatim>\<open>tokenize\<close> (Python 3.11) for the
  source of the two lines \<^verbatim>\<open>)\<close> and \<^verbatim>\<open>(\<close>, \<open>toks_carriage_return\<close> the one for the source
  \<^verbatim>\<open>x\<close> followed by a carriage return.
\<close>

definition rule_any :: Rule where
  "rule_any = \<lparr>rule_id = ''ANY'', enabled = True, severity = ''info'',
    description = ''a pattern that matches the empty string'',
    rule_match = \<lparr>match_context = \<lparr>mc_in_function = None, not_in_blocks = []\<rparr>,
                  statement_token_regex = []\<rparr>,
    autofix = None\<rparr>"

definition rules_any :: RuleSet where
  "rules_any = \<lparr>version = 1, rules = [rule_any]\<rparr>"

definition toks_unbalanced :: "token list" where
  "toks_unbalanced =
     [tk OP '')'' (1, 0) (1, 1),
      tk NEWLINE [CHR 0x0A] (1, 1) (1, 2),
      tk OP ''('' (2, 0) (2, 1),
      tk NEWLINE [CHR 0x0A] (2, 1) (2, 2),
      tk ENDMARKER [] (3, 0) (3, 0)]"

definition toks_carriage_return :: "token list" where
  "toks_carriage_return =
     [tk NAME ''x'' (1, 0) (1, 1),
      tk (OTHER ''ERRORTOKEN'') [CHR 0x0D] (1, 1) (1, 2),
      tk ENDMARKER [] (2, 0) (2, 0)]"

section \<open>The specification's reading of the segmenter, and example token lists\<close>












section \<open>The specification's reading of the fixer, and example sources\<close>

text \<open>
  The imports that the specification calls offending: nested in a function (\<open>f\<close>) and
  not inside a \<^verbatim>\<open>try\<close> statement (\<open>t\<close>), in the order of the source. A \<^verbatim>\<open>try\<close> statement
  is one with \<^verbatim>\<open>except\<close> or \<^verbatim>\<open>finally\<close> clauses (\<open>Try\<close>) or one with \<^verbatim>\<open>except*\<close> clauses
  (\<open>TryStar\<close>).
\<close>

fun unguarded :: "bool \<Rightarrow> bool \<Rightarrow> stmt \<Rightarrow> stmt list"
  and unguarded_all :: "bool \<Rightarrow> bool \<Rightarrow> stmt list \<Rightarrow> stmt list" where
  "unguarded f t (Import l e) = (if f \<and> \<not> t then [Import l e] else [])"
| "unguarded f t (ImportFrom l e) = (if f \<and> \<not> t then [ImportFrom l e] else [])"
| "unguarded f t (FunctionDef l e body) = unguarded_all True t body"
| "unguarded f t (AsyncFunctionDef l e body) = unguarded_all True t body"
| "unguarded f t (Try l e body) = unguarded_all f True body"
| "unguarded f t (TryStar l e body) = unguarded_all f True body"
| "unguarded f t (Expr l e b) = []"
| "unguarded f t (Other l e body) = unguarded_all f t body"
| "unguarded_all f t [] = []"
| "unguarded_all f t (s # ss) = unguarded f t s @ unguarded_all f t ss"

text \<open>The syntax trees without a \<^verbatim>\<open>try\<close> ... \<^verbatim>\<open>except*\<close> statement.\<close>

fun star_free :: "stmt \<Rightarrow> bool"
  and star_free_all :: "stmt list \<Rightarrow> bool" where
  "star_free (Import l e) = True"
| "star_free (ImportFrom l e) = True"
| "star_free (FunctionDef l e body) = star_free_all body"
| "star_free (AsyncFunctionDef l e body) = star_free_all body"
| "star_free (Try l e body) = star_free_all body"
| "star_free (TryStar l e body) = False"
| "star_free (Expr l e b) = True"
| "star_free (Other l e body) = star_free_all body"
| "star_free_all [] = True"
| "star_free_all (s # ss) = (star_free s \<and> star_free_all ss)"

text \<open>
  The \<^verbatim>\<open>dedupe\<close> flag of the first enabled rule whose autofix action is
  \<^verbatim>\<open>move_imports_to_top\<close>, if there is one.
\<close>

definition is_move :: "Rule \<Rightarrow> bool" where
  "is_move r = (enabled r \<and> (case autofix r of None \<Rightarrow> False
                                | Some af \<Rightarrow> action af = ''move_imports_to_top''))"

definition move_action :: "RuleSet \<Rightarrow> bool option" where
  "move_action ruleset =
     map_option (\<lambda>r. dedupe (the (autofix r))) (find is_move (rules ruleset))"

text \<open>
  Example sources and \<open>parse_example\<close>, which is \<^verbatim>\<open>ast.parse\<close> (of Python 3.11) on them:
  the third one is a function without a body, on which \<^verbatim>\<open>ast.parse\<close> raises
  \<^verbatim>\<open>IndentationError\<close>, a \<^verbatim>\<open>SyntaxError\<close>.
\<close>

definition src_whitespace_line :: string where
  "src_whitespace_line = ''import a\<newline> \<newline>def f(): import os\<newline>''"

definition src_except_star :: string where
  "src_except_star = ''def f():\<newline>    try:\<newline>        import tomllib\<newline>        ok = True\<newline>    except* ImportError:\<newline>        ok = False\<newline>    return ok\<newline>''"

definition src_no_final_newline :: string where
  "src_no_final_newline = ''def f():\<newline>    import os\<newline>    return os''"

definition src_two_final_newlines :: string where
  "src_two_final_newlines = ''def f():\<newline>    import os\<newline>    return os\<newline>\<newline>''"

definition src_guarded :: string where
  "src_guarded = ''import sys\<newline>\<newline>def f():\<newline>    try:\<newline>        import json\<newline>    except ImportError:\<newline>        json = None\<newline>    return json''"

definition src_overlap :: string where
  "src_overlap = ''def f():\<newline>    import os; from sys import (\<newline>        path)\<newline>    try: import json\<newline>    except ImportError: json = None\<newline>    return os, path, json\<newline>''"

definition parse_example :: "string \<Rightarrow> stmt list option" where
  "parse_example s =
     (if s = ''x = 1'' then Some [Other 1 (Some 1) []]
      else if s = src_def_import then Some [FunctionDef 1 (Some 2) [Import 2 (Some 2)]]
      else if s = ''import os\<newline>\<newline>def f():\<newline>'' then None
      else if s = ''def f(): import os\<newline>''
        then Some [FunctionDef 1 (Some 1) [Import 1 (Some 1)]]
      else if s = src_whitespace_line
        then Some [Import 1 (Some 1), FunctionDef 3 (Some 3) [Import 3 (Some 3)]]
      else if s = ''import a\<newline>\<newline>def f(): import os\<newline> \<newline>''
        then Some [Import 1 (Some 1), FunctionDef 3 (Some 3) [Import 3 (Some 3)]]
      else if s = src_except_star
        then Some [FunctionDef 1 (Some 7)
                     [TryStar 2 (Some 6)
                        [Import 3 (Some 3), Other 4 (Some 4) [], Other 6 (Some 6) []],
                      Other 7 (Some 7) []]]
      else if s = src_no_final_newline \<or> s = src_two_final_newlines
        then Some [FunctionDef 1 (Some 3) [Import 2 (Some 2), Other 3 (Some 3) []]]
      else if s = src_guarded
        then Some [Import 1 (Some 1),
                   FunctionDef 3 (Some 8)
                     [Try 4 (Some 7) [Import 5 (Some 5), Other 7 (Some 7) []],
                      Other 8 (Some 8) []]]
      else if s = src_overlap
        then Some [FunctionDef 1 (Some 6)
                     [Import 2 (Some 2), ImportFrom 2 (Some 3),
                      Try 4 (Some 5) [Import 4 (Some 4), Other 5 (Some 5) []],
                      Other 6 (Some 6) []]]
      else None)"

section \<open>Properties of the engine\<close>


lemma has_any_block_iff:
  "has_any_block c names = (\<not> list_all (\<lambda>tag. tag \<notin> set (block_stack c)) names)"
  by (simp add: has_any_block_def list_ex_iff list_all_iff)

lemma rule_loop_step:
  "rule_loop fp st ((rid, rx, rule) # cs) vs =
     rule_loop fp st cs
       (vs @ (if spec_emits rx rule st then [mk_violation fp st rule] else []))"
  by (cases "mc_in_function (match_context (rule_match rule))")
     (auto simp: spec_emits_def has_any_block_iff Let_def)

lemma rule_loop_eq:
  "rule_loop fp st (map (\<lambda>r. (rule_id r, projr (rc (pattern_of r)), r)) rs) vs =
     vs @ concat (map (emitted rc fp st) rs)"
  by (induction rs arbitrary: vs) (simp_all add: rule_loop_step emitted_def del: rule_loop.simps(2))

lemma stmt_loop_eq:
  "stmt_loop fp (map (\<lambda>r. (rule_id r, projr (rc (pattern_of r)), r)) rs) sts vs =
     vs @ concat (map (\<lambda>st. concat (map (emitted rc fp st) rs)) sts)"
  by (induction sts arbitrary: vs) (simp_all add: rule_loop_eq)

lemma compile_rules_ok:
  "\<forall>r \<in> set rs. \<not> isl (rc (pattern_of r)) \<Longrightarrow>
   compile_rules rc rs acc = Inr (acc @ map (\<lambda>r. (rule_id r, projr (rc (pattern_of r)), r)) rs)"
proof (induction rs arbitrary: acc)
  case Nil
  then show ?case by simp
next
  case (Cons r rs)
  then obtain rx where "rc (statement_token_regex (rule_match r)) = Inr rx"
    by (cases "rc (statement_token_regex (rule_match r))") (auto simp: pattern_of_def)
  with Cons show ?case by (simp add: pattern_of_def)
qed

lemma compile_rules_invalid:
  "find (\<lambda>r. isl (rc (pattern_of r))) rs = Some r \<Longrightarrow>
   compile_rules rc rs acc = Inl (compile_failure r (projl (rc (pattern_of r))))"
proof (induction rs arbitrary: acc)
  case Nil
  then show ?case by simp
next
  case (Cons a rs)
  show ?case
  proof (cases "rc (statement_token_regex (rule_match a))")
    case (Inl e)
    with Cons.prems show ?thesis
      by (simp add: pattern_of_def)
  next
    case (Inr rx)
    with Cons show ?thesis by (simp add: pattern_of_def)
  qed
qed

lemma find_None_all: "find P xs = None \<Longrightarrow> \<forall>x \<in> set xs. \<not> P x"
  by (simp add: find_None_iff)

lemma file_loop_no_ValueError:
  "file_loop gt rd cs fps res \<noteq> Inl (ValueError m)"
  by (induction fps arbitrary: res)
     (auto simp: iter_statements_def split: option.splits sum.splits)

text \<open>
  C4. When the patterns of all enabled rules compile, the violations of a file are, for
  every statement in order and every enabled rule in order, one violation if the three
  conditions of \<open>spec_emits\<close> hold and none otherwise: a violation for a pair of a
  statement and a rule exactly when the filter, the excluded blocks and the pattern allow
  it, and never more than one.
\<close>
theorem check_emits_iff:
  assumes "first_invalid re_compile ruleset = None"
    and "read_text fp = Some src"
    and "generate_tokens src = Some toks"
  shows "check_paths re_compile generate_tokens read_text [fp] ruleset =
           Inr \<lparr>violations =
                  concat (map (\<lambda>st. concat (map (emitted re_compile fp st)
                                               (filter enabled (rules ruleset))))
                            (segment toks)),
                files_checked = 1\<rparr>"
proof -
  from assms(1)
  have "\<forall>r \<in> set (filter enabled (rules ruleset)). \<not> isl (re_compile (pattern_of r))"
    unfolding first_invalid_def by (rule find_None_all)
  with assms(2,3) show ?thesis
    by (simp add: check_paths_def compile_rules_ok [where acc = "[]", simplified]
          iter_statements_def stmt_loop_eq)
qed

theorem check_emits_iff_witness:
  "first_invalid re_literal rules_example = None
   \<and> read_example ''a.py'' = Some src_def_import
   \<and> tokenize_example src_def_import = Some toks_def_import
   \<and> check_paths re_literal tokenize_example read_example [''a.py''] rules_example =
       Inr \<lparr>violations =
              concat (map (\<lambda>st. concat (map (emitted re_literal ''a.py'' st)
                                           (filter enabled (rules rules_example))))
                        (segment toks_def_import)),
            files_checked = 1\<rparr>"
proof -
  have h1: "first_invalid re_literal rules_example = None"
    by (simp add: first_invalid_def rules_example_def rule_pyfmt001_def
          re_literal_def pattern_of_def)
  have h2: "read_example ''a.py'' = Some src_def_import"
    by (simp add: read_example_def)
  have h3: "tokenize_example src_def_import = Some toks_def_import"
    by (simp add: tokenize_example_def)
  show ?thesis
    using h1 h2 h3
      check_emits_iff [of re_literal rules_example read_example "''a.py''" src_def_import
        tokenize_example toks_def_import]
    by simp
qed

text \<open>
  What \<^verbatim>\<open>check_paths\<close> does when a pattern does not compile: it ends with the exception
  of the first enabled rule whose pattern does not compile, as the handler leaves it,
  whatever the files are. A \<^verbatim>\<open>ValueError\<close> comes from that handler only.
\<close>
lemma check_paths_compile_failure:
  "first_invalid re_compile ruleset = Some r \<Longrightarrow>
   check_paths re_compile generate_tokens read_text files ruleset =
     Inl (compile_failure r (projl (re_compile (pattern_of r))))"
  by (simp add: check_paths_def first_invalid_def compile_rules_invalid)

lemma check_paths_no_ValueError:
  assumes "first_invalid re_compile ruleset = None"
  shows "check_paths re_compile generate_tokens read_text files ruleset \<noteq> Inl (ValueError m)"
proof -
  from assms
  have "\<forall>r \<in> set (filter enabled (rules ruleset)). \<not> isl (re_compile (pattern_of r))"
    unfolding first_invalid_def by (rule find_None_all)
  then show ?thesis
    by (simp add: check_paths_def compile_rules_ok [where acc = "[]", simplified]
          file_loop_no_ValueError)
qed

text \<open>
  C8. The pattern \<^verbatim>\<open>a{99999999999999999999}\<close> of the enabled rule \<^verbatim>\<open>OVERFLOW\<close> does not
  compile: \<^verbatim>\<open>re.compile\<close> raises \<^verbatim>\<open>OverflowError\<close> on it, which is not a \<^verbatim>\<open>re.error\<close>.
  Whatever the files and the tokenizer are, \<^verbatim>\<open>check_paths\<close> ends with that exception and
  not with the \<^verbatim>\<open>ValueError\<close> whose message names the rule: the error does not tell which
  rule has the pattern.
\<close>
theorem check_overflow_without_rule_id:
  "first_invalid re_literal rules_overflow = Some rule_overflow
   \<and> check_paths re_literal generate_tokens read_text files rules_overflow
       = Inl (Uncaught ''OverflowError'')
   \<and> check_paths re_literal generate_tokens read_text files rules_broken
       = Inl (ValueError
           ''Invalid regex for rule BROKEN: missing ), unterminated subpattern at position 0'')"
  by (simp add: first_invalid_def check_paths_def rules_overflow_def rules_broken_def
        rule_overflow_def rule_broken_def rule_pyfmt001_def re_literal_def pattern_of_def)

text \<open>
  C6. For the source \<^verbatim>\<open>def f():\<close>, \<^verbatim>\<open>    import os\<close> the violation of the import is
  reported at line 2, column 1, and the first token of the statement, \<^verbatim>\<open>import\<close>, starts
  at column 4 (from 0) of line 2: the statement starts at the \<^verbatim>\<open>INDENT\<close> token that is
  buffered before it.
\<close>
theorem check_reports_indent_column:
  "check_paths re_literal tokenize_example read_example [''a.py''] rules_example =
     Inr \<lparr>violations =
            [\<lparr>v_rule_id = ''PYFMT001'', v_message = ''import inside a function'',
              v_path = ''a.py'', v_line = 2, v_col = 1, v_severity = ''error''\<rparr>],
          files_checked = 1\<rparr>
   \<and> toks_def_import ! 7 = tk NAME ''import'' (2, 4) (2, 10)"
  by code_simp

section \<open>Properties of the segmenter\<close>

lemma flush_frame [simp]:
  "paren_depth (flush e s) = paren_depth s" "blocks (flush e s) = blocks s"
  "seen_suite_kw (flush e s) = seen_suite_kw s" "suite_armed (flush e s) = suite_armed s"
  "last_sig (flush e s) = last_sig s" "stmt_start (flush e s) = stmt_start s"
  "buf (flush e s) = []"
  by (simp_all add: flush_def Let_def split: prod.splits)

lemma step_paren_frame [simp]:
  "statements (step_paren t s) = statements s"
  "buf (step_paren t s) = buf s"
  "stmt_start (step_paren t s) = stmt_start s"
  "blocks (step_paren t s) = blocks s"
  "seen_suite_kw (step_paren t s) = seen_suite_kw s"
  "suite_armed (step_paren t s) = suite_armed s"
  "last_sig (step_paren t s) = last_sig s"
  by (simp_all add: step_paren_def Let_def)

lemma step_kw_frame [simp]:
  "statements (step_kw t s) = statements s"
  "buf (step_kw t s) = buf s"
  "stmt_start (step_kw t s) = stmt_start s"
  "paren_depth (step_kw t s) = paren_depth s"
  "blocks (step_kw t s) = blocks s"
  "last_sig (step_kw t s) = last_sig s"
  by (simp_all add: step_kw_def Let_def)

lemma step_async_frame [simp]:
  "statements (step_async t s) = statements s"
  "buf (step_async t s) = buf s"
  "stmt_start (step_async t s) = stmt_start s"
  "paren_depth (step_async t s) = paren_depth s"
  "blocks (step_async t s) = blocks s"
  "last_sig (step_async t s) = last_sig s"
  by (simp_all add: step_async_def Let_def split: option.splits)

lemma step_arm_frame [simp]:
  "statements (step_arm t s) = statements s"
  "buf (step_arm t s) = buf s"
  "stmt_start (step_arm t s) = stmt_start s"
  "paren_depth (step_arm t s) = paren_depth s"
  "blocks (step_arm t s) = blocks s"
  "seen_suite_kw (step_arm t s) = seen_suite_kw s"
  by (simp_all add: step_arm_def Let_def)

lemma step_disarm_frame [simp]:
  "statements (step_disarm t s) = statements s"
  "buf (step_disarm t s) = buf s"
  "stmt_start (step_disarm t s) = stmt_start s"
  "paren_depth (step_disarm t s) = paren_depth s"
  "blocks (step_disarm t s) = blocks s"
  "last_sig (step_disarm t s) = last_sig s"
  by (simp_all add: step_disarm_def Let_def)

lemma step_indent_frame [simp]:
  "statements (step_indent t s) = statements s"
  "buf (step_indent t s) = buf s"
  "stmt_start (step_indent t s) = stmt_start s"
  "paren_depth (step_indent t s) = paren_depth s"
  "last_sig (step_indent t s) = last_sig s"
  by (simp_all add: step_indent_def Let_def)

lemma step_buf_frame [simp]:
  "statements (step_buf t s) = statements s"
  "paren_depth (step_buf t s) = paren_depth s"
  "blocks (step_buf t s) = blocks s"
  "seen_suite_kw (step_buf t s) = seen_suite_kw s"
  "suite_armed (step_buf t s) = suite_armed s"
  "last_sig (step_buf t s) = last_sig s"
  by (simp_all add: step_buf_def Let_def)

lemma step_end_frame [simp]:
  "stmt_start (step_end t s) = stmt_start s"
  "paren_depth (step_end t s) = paren_depth s"
  "blocks (step_end t s) = blocks s"
  "seen_suite_kw (step_end t s) = seen_suite_kw s"
  "suite_armed (step_end t s) = suite_armed s"
  "last_sig (step_end t s) = last_sig s"
  by (simp_all add: step_end_def Let_def)

lemma step_last_frame [simp]:
  "statements (step_last t s) = statements s"
  "buf (step_last t s) = buf s"
  "stmt_start (step_last t s) = stmt_start s"
  "paren_depth (step_last t s) = paren_depth s"
  "blocks (step_last t s) = blocks s"
  "seen_suite_kw (step_last t s) = seen_suite_kw s"
  "suite_armed (step_last t s) = suite_armed s"
  by (simp_all add: step_last_def Let_def)



lemma run_append: "run (xs @ ys) s = run ys (run xs s)"
  by (simp add: run_def)

lemma run_Cons: "run (t # ts) s = run ts (step t s)"
  by (simp add: run_def)

lemma buf_step_buf: "buf (step_buf t s) = buf s @ [t]"
  by (simp add: step_buf_def Let_def)

lemma flush_layout: "list_all is_layout (buf s) \<Longrightarrow> statements (flush e s) = statements s"
  by (simp add: flush_def Let_def filter_empty_conv list_all_iff)

lemma blocks_step_indent:
  "tok_type t \<noteq> INDENT \<Longrightarrow> tok_type t \<noteq> DEDENT \<Longrightarrow> blocks (step_indent t s) = blocks s"
  by (simp add: step_indent_def)

lemma step_newline:
  assumes "tok_type t = NEWLINE"
  shows "paren_depth (step t s) = paren_depth s"
    and "paren_depth s = 0 \<Longrightarrow> buf (step t s) = []"
  using assms by (simp_all add: step_def step_end_def step_paren_def)

lemma layout_step:
  assumes "is_layout t" and "list_all is_layout (buf s)"
  shows "list_all is_layout (buf (step t s)) \<and> statements (step t s) = statements s"
  using assms by (simp add: step_def step_end_def buf_step_buf flush_layout)

lemma run_layout:
  "list_all is_layout lay \<Longrightarrow> list_all is_layout (buf s) \<Longrightarrow>
     list_all is_layout (buf (run lay s)) \<and> statements (run lay s) = statements s"
proof (induction lay arbitrary: s)
  case Nil
  then show ?case by (simp add: run_def)
next
  case (Cons t lay)
  from Cons.prems have t: "is_layout t" and l: "list_all is_layout lay" by simp_all
  from layout_step [OF t Cons.prems(2)] Cons.IH [OF l, of "step t s"]
  show ?case by (simp add: run_Cons)
qed

lemma endmarker_step:
  assumes "tok_type em = ENDMARKER"
  shows "buf (step em s) = buf s @ [em]" and "statements (step em s) = statements s"
  using assms
  by (simp_all add: step_def step_end_def buf_step_buf)

lemma flush_endmarker:
  assumes "tok_type em = ENDMARKER" and "list_all is_layout (buf s)"
  shows "\<exists>st. statements (flush None (step em s)) = statements s @ [st]
            \<and> token_string st = [] \<and> (end_line st, end_col st) = tok_end em"
proof -
  have nl: "\<not> is_layout em" using assms(1) by (simp add: is_layout_def)
  have sig: "filter (\<lambda>t. \<not> is_layout t) (buf (step em s)) = [em]"
    using assms(2) nl by (simp add: endmarker_step [OF assms(1)] filter_empty_conv list_all_iff)
  have keep: "\<not> keep_token em" using assms(1) by (simp add: keep_token_def)
  show ?thesis
    using sig keep
    by (simp add: flush_def Let_def endmarker_step(2) [OF assms(1)] split: prod.splits)
qed

lemma buf_run_pre:
  assumes "pre = [] \<or> tok_type (last pre) = NEWLINE \<and> paren_depth (run pre seg_init) = 0"
  shows "buf (run pre seg_init) = []"
proof (cases "pre = []")
  case True
  then show ?thesis by (simp add: run_def seg_init_def)
next
  case False
  with assms have nl: "tok_type (last pre) = NEWLINE"
    and d: "paren_depth (run pre seg_init) = 0" by simp_all
  from False have pre: "pre = butlast pre @ [last pre]" by simp
  have r: "run pre seg_init = step (last pre) (run (butlast pre) seg_init)"
    by (subst pre) (simp add: run_append run_Cons run_def)
  from d have "paren_depth (run (butlast pre) seg_init) = 0"
    by (simp add: r step_newline(1) [OF nl])
  then show ?thesis by (simp add: r step_newline(2) [OF nl])
qed

lemma segment_endmarker:
  assumes "toks = pre @ lay @ [em]"
    and "pre = [] \<or> tok_type (last pre) = NEWLINE \<and> paren_depth (run pre seg_init) = 0"
    and "list_all is_layout lay"
    and "tok_type em = ENDMARKER"
  shows "segment toks = segment pre @ [last (segment toks)]
         \<and> token_string (last (segment toks)) = []
         \<and> (end_line (last (segment toks)), end_col (last (segment toks))) = tok_end em"
proof -
  have b: "buf (run pre seg_init) = []" using assms(2) by (rule buf_run_pre)
  have sp: "segment pre = statements (run pre seg_init)"
    by (simp add: segment_def flush_def b)
  from run_layout [OF assms(3), of "run pre seg_init"] b
  have l: "list_all is_layout (buf (run (pre @ lay) seg_init))"
    and st: "statements (run (pre @ lay) seg_init) = segment pre"
    by (simp_all add: run_append sp)
  from flush_endmarker [OF assms(4) l] obtain st where
    "statements (flush None (step em (run (pre @ lay) seg_init))) = segment pre @ [st]"
    "token_string st = []" "(end_line st, end_col st) = tok_end em"
    by (auto simp: st)
  moreover have "segment toks = statements (flush None (step em (run (pre @ lay) seg_init)))"
    unfolding segment_def assms(1) by (simp add: run_def)
  ultimately show ?thesis by simp
qed


lemma rule_loop_append: "rule_loop fp st cs vs = vs @ rule_loop fp st cs []"
proof (induction cs arbitrary: vs)
  case Nil
  then show ?case by simp
next
  case (Cons c cs)
  obtain rid rx rule where c: "c = (rid, rx, rule)" by (cases c)
  show ?case
    unfolding c rule_loop_step
    using Cons [of "vs @ (if spec_emits rx rule st then [mk_violation fp st rule] else [])"]
      Cons [of "[] @ (if spec_emits rx rule st then [mk_violation fp st rule] else [])"]
    by simp
qed

lemma stmt_loop_append: "stmt_loop fp cs sts vs = vs @ stmt_loop fp cs sts []"
proof (induction sts arbitrary: vs)
  case Nil
  then show ?case by simp
next
  case (Cons st sts)
  show ?case
    using Cons [of "rule_loop fp st cs vs"] Cons [of "rule_loop fp st cs []"]
      rule_loop_append [of fp st cs vs]
    by simp
qed

lemma file_loop_mono:
  "file_loop gt rd cs fps res = Inr res' \<Longrightarrow> set (violations res) \<subseteq> set (violations res')"
proof (induction fps arbitrary: res)
  case Nil
  then show ?case by simp
next
  case (Cons f fps)
  show ?case
  proof (cases "rd f")
    case None
    with Cons show ?thesis by simp
  next
    case (Some src)
    show ?thesis
    proof (cases "gt src")
      case None
      with Some Cons.prems show ?thesis by (simp add: iter_statements_def)
    next
      case (Some toks)
      with \<open>rd f = Some src\<close> Cons.prems
      have "file_loop gt rd cs fps
              \<lparr>violations = stmt_loop f cs (segment toks) (violations res),
               files_checked = files_checked res + 1\<rparr> = Inr res'"
        by (simp add: iter_statements_def)
      from Cons.IH [OF this] stmt_loop_append [of f cs "segment toks" "violations res"]
      show ?thesis by simp
    qed
  qed
qed

lemma file_loop_member:
  "file_loop gt rd cs fps res = Inr res' \<Longrightarrow> fp \<in> set fps \<Longrightarrow> rd fp = Some src \<Longrightarrow>
   gt src = Some toks \<Longrightarrow> set (stmt_loop fp cs (segment toks) []) \<subseteq> set (violations res')"
proof (induction fps arbitrary: res)
  case Nil
  then show ?case by simp
next
  case (Cons f fps)
  show ?case
  proof (cases "f = fp")
    case True
    with Cons.prems
    have "file_loop gt rd cs fps
              \<lparr>violations = stmt_loop fp cs (segment toks) (violations res),
               files_checked = files_checked res + 1\<rparr> = Inr res'"
      by (simp add: iter_statements_def)
    from file_loop_mono [OF this] stmt_loop_append [of fp cs "segment toks" "violations res"]
    show ?thesis by simp
  next
    case False
    with Cons.prems have mem: "fp \<in> set fps" by simp
    show ?thesis
    proof (cases "rd f")
      case None
      with Cons.prems have "file_loop gt rd cs fps res = Inr res'" by simp
      from Cons.IH [OF this mem Cons.prems(3,4)] show ?thesis .
    next
      case (Some src')
      show ?thesis
      proof (cases "gt src'")
        case None
        with Some Cons.prems show ?thesis by (simp add: iter_statements_def)
      next
        case (Some toks')
        with \<open>rd f = Some src'\<close> Cons.prems
        have "file_loop gt rd cs fps
              \<lparr>violations = stmt_loop f cs (segment toks') (violations res),
               files_checked = files_checked res + 1\<rparr> = Inr res'"
          by (simp add: iter_statements_def)
        from Cons.IH [OF this mem Cons.prems(3,4)] show ?thesis .
      qed
    qed
  qed
qed

lemma check_paths_Inr:
  assumes "check_paths rc gt rd files ruleset = Inr res"
  shows "first_invalid rc ruleset = None"
    and "file_loop gt rd (map (\<lambda>r. (rule_id r, projr (rc (pattern_of r)), r))
           (filter enabled (rules ruleset))) files \<lparr>violations = [], files_checked = 0\<rparr> = Inr res"
proof -
  show fi: "first_invalid rc ruleset = None"
  proof (cases "first_invalid rc ruleset")
    case None
    then show ?thesis .
  next
    case (Some r)
    from check_paths_compile_failure [OF this, of gt rd files] assms show ?thesis by simp
  qed
  then have "\<forall>r \<in> set (filter enabled (rules ruleset)). \<not> isl (rc (pattern_of r))"
    unfolding first_invalid_def by (rule find_None_all)
  with assms show "file_loop gt rd (map (\<lambda>r. (rule_id r, projr (rc (pattern_of r)), r))
           (filter enabled (rules ruleset))) files \<lparr>violations = [], files_checked = 0\<rparr> = Inr res"
    by (simp add: check_paths_def compile_rules_ok [where acc = "[]", simplified])
qed

lemma emitted_unfiltered:
  assumes "match_context (rule_match r) = \<lparr>mc_in_function = None, not_in_blocks = []\<rparr>"
    and "projr (rc (pattern_of r)) (token_string st)"
  shows "emitted rc fp st r = [mk_violation fp st r]"
  using assms by (simp add: emitted_def spec_emits_def)


text \<open>
  C9, amended. Let the token list that the tokenizer gives for a source be a part \<open>pre\<close> that is empty or ends with
  a \<^verbatim>\<open>NEWLINE\<close> token at which \<^verbatim>\<open>paren_depth\<close> is 0, then tokens of the types \<^verbatim>\<open>NL\<close>,
  \<^verbatim>\<open>NEWLINE\<close>, \<^verbatim>\<open>INDENT\<close>, \<^verbatim>\<open>DEDENT\<close> and \<^verbatim>\<open>COMMENT\<close> only, then the \<^verbatim>\<open>ENDMARKER\<close> token.
  Then \<^verbatim>\<open>iter_statements\<close> returns the statements of \<open>pre\<close> and one more, which ends
  where the \<^verbatim>\<open>ENDMARKER\<close> token ends and has the empty fingerprint. When a run of \<^verbatim>\<open>check_paths\<close>
  that reads the source from one of its files returns, its violations hold the violation
  of that statement for every enabled rule that has no context filter and whose pattern
  finds a match in the empty string.
\<close>
theorem endmarker_statement:
  assumes "toks = pre @ lay @ [em]"
    and "pre = [] \<or> tok_type (last pre) = NEWLINE \<and> paren_depth (run pre seg_init) = 0"
    and "list_all is_layout lay"
    and "tok_type em = ENDMARKER"
    and "check_paths re_compile generate_tokens read_text files ruleset = Inr res"
    and "fp \<in> set files" and "read_text fp = Some src" and "generate_tokens src = Some toks"
    and "r \<in> set (rules ruleset)" and "enabled r"
    and "match_context (rule_match r) = \<lparr>mc_in_function = None, not_in_blocks = []\<rparr>"
    and "re_compile (pattern_of r) = Inr rx" and "rx []"
  shows "iter_statements generate_tokens src = Inr (segment toks)
         \<and> segment toks = segment pre @ [last (segment toks)]
         \<and> token_string (last (segment toks)) = []
         \<and> (end_line (last (segment toks)), end_col (last (segment toks))) = tok_end em
         \<and> mk_violation fp (last (segment toks)) r \<in> set (violations res)"
proof -
  let ?st = "last (segment toks)"
  let ?rs = "filter enabled (rules ruleset)"
  let ?cs = "map (\<lambda>r. (rule_id r, projr (re_compile (pattern_of r)), r)) ?rs"
  from segment_endmarker [OF assms(1-4)]
  have seg: "segment toks = segment pre @ [?st]" and fp: "token_string ?st = []"
    and e: "(end_line ?st, end_col ?st) = tok_end em"
    by simp_all
  from seg have mem_st: "?st \<in> set (segment toks)"
    by (metis in_set_conv_decomp)
  from assms(9,10) have mem_r: "r \<in> set ?rs" by simp
  from assms(12,13) fp have "projr (re_compile (pattern_of r)) (token_string ?st)" by simp
  with assms(11) have em: "emitted re_compile fp ?st r = [mk_violation fp ?st r]"
    by (rule emitted_unfiltered)
  have "mk_violation fp ?st r \<in> set (emitted re_compile fp ?st r)" by (simp add: em)
  with mem_st mem_r
  have "mk_violation fp ?st r \<in> set (stmt_loop fp ?cs (segment toks) [])"
    unfolding stmt_loop_eq by auto
  moreover from check_paths_Inr(2) [OF assms(5)] assms(6-8)
  have "set (stmt_loop fp ?cs (segment toks) []) \<subseteq> set (violations res)"
    by (rule file_loop_member)
  ultimately have "mk_violation fp ?st r \<in> set (violations res)" by blast
  with seg fp e assms(8) show ?thesis by (simp add: iter_statements_def)
qed

theorem endmarker_statement_witness:
  "toks_def_import = take 10 toks_def_import @ [toks_def_import ! 10] @ [toks_def_import ! 11]
   \<and> tok_type (last (take 10 toks_def_import)) = NEWLINE
   \<and> paren_depth (run (take 10 toks_def_import) seg_init) = 0
   \<and> list_all is_layout [toks_def_import ! 10]
   \<and> tok_type (toks_def_import ! 11) = ENDMARKER
   \<and> check_paths re_literal tokenize_example read_example [''a.py''] rules_any =
       Inr \<lparr>violations =
              [\<lparr>v_rule_id = ''ANY'', v_message = ''a pattern that matches the empty string'',
                v_path = ''a.py'', v_line = 1, v_col = 1, v_severity = ''info''\<rparr>,
               \<lparr>v_rule_id = ''ANY'', v_message = ''a pattern that matches the empty string'',
                v_path = ''a.py'', v_line = 2, v_col = 1, v_severity = ''info''\<rparr>,
               \<lparr>v_rule_id = ''ANY'', v_message = ''a pattern that matches the empty string'',
                v_path = ''a.py'', v_line = 3, v_col = 1, v_severity = ''info''\<rparr>],
            files_checked = 1\<rparr>
   \<and> segment toks_def_import
       = segment (take 10 toks_def_import) @ [last (segment toks_def_import)]
   \<and> token_string (last (segment toks_def_import)) = []
   \<and> (end_line (last (segment toks_def_import)), end_col (last (segment toks_def_import)))
       = (3, 0)
   \<and> mk_violation ''a.py'' (last (segment toks_def_import)) rule_any =
       \<lparr>v_rule_id = ''ANY'', v_message = ''a pattern that matches the empty string'',
        v_path = ''a.py'', v_line = 3, v_col = 1, v_severity = ''info''\<rparr>"
proof -
  have h1: "toks_def_import
      = take 10 toks_def_import @ [toks_def_import ! 10] @ [toks_def_import ! 11]"
    by (simp add: toks_def_import_def)
  have h2: "tok_type (last (take 10 toks_def_import)) = NEWLINE
      \<and> paren_depth (run (take 10 toks_def_import) seg_init) = 0"
    by code_simp
  have h3: "list_all is_layout [toks_def_import ! 10]"
    by (simp add: toks_def_import_def tk_def is_layout_def)
  have h4: "tok_type (toks_def_import ! 11) = ENDMARKER"
    by (simp add: toks_def_import_def tk_def)
  have h5: "check_paths re_literal tokenize_example read_example [''a.py''] rules_any =
       Inr \<lparr>violations =
              [\<lparr>v_rule_id = ''ANY'', v_message = ''a pattern that matches the empty string'',
                v_path = ''a.py'', v_line = 1, v_col = 1, v_severity = ''info''\<rparr>,
               \<lparr>v_rule_id = ''ANY'', v_message = ''a pattern that matches the empty string'',
                v_path = ''a.py'', v_line = 2, v_col = 1, v_severity = ''info''\<rparr>,
               \<lparr>v_rule_id = ''ANY'', v_message = ''a pattern that matches the empty string'',
                v_path = ''a.py'', v_line = 3, v_col = 1, v_severity = ''info''\<rparr>],
            files_checked = 1\<rparr>"
    by code_simp
  have h6: "read_example ''a.py'' = Some src_def_import"
    by (simp add: read_example_def)
  have h7: "tokenize_example src_def_import = Some toks_def_import"
    by (simp add: tokenize_example_def)
  have h8: "match_context (rule_match rule_any) = \<lparr>mc_in_function = None, not_in_blocks = []\<rparr>"
    and h9: "enabled rule_any" and h10: "rule_any \<in> set (rules rules_any)"
    and h11: "re_literal (pattern_of rule_any) = Inr (str_in [])"
    by (simp_all add: rule_any_def rules_any_def re_literal_def pattern_of_def)
  have h12: "str_in [] []" by simp
  have h13: "tok_end (toks_def_import ! 11) = (3, 0)"
    by (simp add: toks_def_import_def tk_def)
  have h14: "mk_violation ''a.py'' (last (segment toks_def_import)) rule_any =
       \<lparr>v_rule_id = ''ANY'', v_message = ''a pattern that matches the empty string'',
        v_path = ''a.py'', v_line = 3, v_col = 1, v_severity = ''info''\<rparr>"
    by code_simp
  from h2 have h2': "take 10 toks_def_import = [] \<or>
      tok_type (last (take 10 toks_def_import)) = NEWLINE
      \<and> paren_depth (run (take 10 toks_def_import) seg_init) = 0"
    by simp
  from endmarker_statement [OF h1 h2' h3 h4 h5 _ h6 h7 h10 h9 h8 h11 h12]
  have "segment toks_def_import
       = segment (take 10 toks_def_import) @ [last (segment toks_def_import)]
   \<and> token_string (last (segment toks_def_import)) = []
   \<and> (end_line (last (segment toks_def_import)), end_col (last (segment toks_def_import)))
       = (3, 0)"
    by (simp add: h13)
  with h1 h2 h3 h4 h5 h14 show ?thesis by simp
qed

text \<open>
  C9 as stated fails. The tokenizer of Python 3.11 accepts the source of the two lines
  \<^verbatim>\<open>)\<close> and \<^verbatim>\<open>(\<close>: it counts the brackets below 0 and ends both lines with a \<^verbatim>\<open>NEWLINE\<close>
  token. The segmenter stops at 0, is at depth 1 at the second \<^verbatim>\<open>NEWLINE\<close> token and does
  not end the statement there, so the last statement holds the bracket and the
  \<^verbatim>\<open>ENDMARKER\<close> token and its fingerprint is not empty: there is no statement of the
  \<^verbatim>\<open>ENDMARKER\<close> token alone. The same holds for the source \<^verbatim>\<open>x\<close> followed by a carriage
  return, whose token list has no \<^verbatim>\<open>NEWLINE\<close> token.
\<close>

theorem segment_last_fingerprint_not_empty:
  "tok_type (last toks_unbalanced) = ENDMARKER
   \<and> map token_string (segment toks_unbalanced) = [''OP:)'', ''OP:('']
   \<and> tok_type (last toks_carriage_return) = ENDMARKER
   \<and> map token_string (segment toks_carriage_return) = [''NAME:x ERRORTOKEN:'' @ [CHR 0x0D]]"
  by code_simp














































section \<open>Properties of the fixer\<close>

lemma visit_offending:
  "star_free s \<Longrightarrow> 0 \<le> c_in_function c \<Longrightarrow> 0 \<le> c_in_try c \<Longrightarrow>
     visit s c = c\<lparr>offending := offending c @ unguarded (0 < c_in_function c) (0 < c_in_try c) s\<rparr>"
  "star_free_all ss \<Longrightarrow> 0 \<le> c_in_function c \<Longrightarrow> 0 \<le> c_in_try c \<Longrightarrow>
     visit_all ss c =
       c\<lparr>offending := offending c @ unguarded_all (0 < c_in_function c) (0 < c_in_try c) ss\<rparr>"
proof (induction s c and ss c rule: visit_visit_all.induct)
  case (1 l e c)
  then show ?case by auto
next
  case (2 l e c)
  then show ?case by auto
next
  case (3 l e body c)
  then show ?case by (simp add: Let_def)
next
  case (4 l e body c)
  then show ?case by (simp add: Let_def)
next
  case (5 l e body c)
  then show ?case by (simp add: Let_def)
next
  case (6 l e body c)
  then show ?case by simp
next
  case (7 l e b c)
  then show ?case by simp
next
  case (8 l e body c)
  then show ?case by simp
next
  case (9 c)
  then show ?case by simp
next
  case (10 s ss c)
  then show ?case by simp
qed

lemma offending_visit_Module:
  "star_free_all body \<Longrightarrow>
   offending (visit_Module body collector_init) = unguarded_all False False body"
  by (simp add: visit_Module_def collector_init_def visit_offending)

lemma fix_nothing:
  "parse source = Some body \<Longrightarrow> offending (visit_Module body collector_init) = [] \<Longrightarrow>
   fix_move_imports_to_top parse source dd = Inr source"
  by (simp add: fix_move_imports_to_top_def)

lemma run_actions_unchanged:
  "(\<And>dd. fix_move_imports_to_top parse source dd = Inr source) \<Longrightarrow>
   run_actions parse unsafe acts source = Inr source"
  by (induction acts) auto

text \<open>
  A source that the parser accepts, that has no \<^verbatim>\<open>try\<close> ... \<^verbatim>\<open>except*\<close> statement and no
  import nested in a function outside every \<^verbatim>\<open>try\<close> statement is returned by
  \<^verbatim>\<open>apply_fixes\<close> as it is, whatever the rules and the \<^verbatim>\<open>unsafe\<close> flag are.
\<close>
lemma apply_fixes_unchanged_without_except_star:
  assumes "parse source = Some body" and "star_free_all body"
    and "unguarded_all False False body = []"
  shows "apply_fixes parse source ruleset unsafe = Inr source"
proof -
  have "offending (visit_Module body collector_init) = []"
    using assms(2,3) by (simp add: offending_visit_Module)
  with assms(1) have "fix_move_imports_to_top parse source dd = Inr source" for dd
    by (simp add: fix_nothing)
  then show ?thesis
    unfolding apply_fixes_def by (rule run_actions_unchanged)
qed

text \<open>
  C10. The only import of \<open>src_except_star\<close> is nested in a function and stands in the
  body of a \<^verbatim>\<open>try\<close> statement with an \<^verbatim>\<open>except*\<close> clause, so the source has no import
  nested in a function outside every \<^verbatim>\<open>try\<close> statement; \<^verbatim>\<open>apply_fixes\<close> moves the import
  to the top of the module. The same function with an \<^verbatim>\<open>except\<close> clause, \<open>src_guarded\<close>, is
  returned as it is, without a final line break.
\<close>
theorem apply_fixes_hoists_except_star_import:
  "unguarded_all False False (the (parse_example src_except_star)) = []
   \<and> apply_fixes parse_example src_except_star rules_example False
     = Inr ''import tomllib\<newline>\<newline>def f():\<newline>    try:\<newline>        ok = True\<newline>    except* ImportError:\<newline>        ok = False\<newline>    return ok\<newline>''
   \<and> splitlines src_except_star ! 2 = ''        import tomllib\<newline>''
   \<and> unguarded_all False False (the (parse_example src_guarded)) = []
   \<and> apply_fixes parse_example src_guarded rules_example False = Inr src_guarded"
  by code_simp

lemma endswith_snoc: "endswith (xs @ [c]) [c]"
  by (simp add: endswith_def)

lemma endswith_append_nl: "endswith (xs @ ys @ [CHR 0x0A]) [CHR 0x0A]"
  by (simp add: endswith_def)

lemma ensure_newline_endswith:
  "out \<noteq> [] \<Longrightarrow> endswith (ensure_newline out) [CHR 0x0A]"
  by (simp add: ensure_newline_def endswith_snoc)

lemma relocate_endswith:
  "concat moved \<noteq> [] \<Longrightarrow> endswith (relocate body doc_end spans moved lines) [CHR 0x0A]"
  unfolding relocate_def Let_def
  by (rule ensure_newline_endswith) (simp add: insertion_block_def Let_def)

lemma moved_loop_all_nonempty:
  "[] \<notin> set acc \<Longrightarrow> [] \<notin> set (moved_loop dd sps acc seen)"
proof (induction sps arbitrary: acc seen)
  case Nil
  then show ?case by simp
next
  case (Cons sp sps)
  have a: "[] \<notin> set (acc @ [rstrip_nl (sp_text sp) @ [CHR 0x0A]])"
    using Cons.prems by simp
  show ?case
    using Cons.IH [OF Cons.prems] Cons.IH [OF a] by (cases dd) (simp_all add: Let_def)
qed

lemma concat_nonempty: "xs \<noteq> [] \<Longrightarrow> [] \<notin> set xs \<Longrightarrow> concat xs \<noteq> []"
  by (cases xs) auto

lemma fix_unfold:
  "parse source = Some body \<Longrightarrow>
   fix_move_imports_to_top parse source dd =
     (if offending (visit_Module body collector_init) = [] then Inr source
      else if moved_loop dd (map (span_of (splitlines source))
                (offending (visit_Module body collector_init))) [] {} = [] then Inr source
      else Inr (relocate body (module_docstring_end (visit_Module body collector_init))
             (map (span_of (splitlines source)) (offending (visit_Module body collector_init)))
             (moved_loop dd (map (span_of (splitlines source))
                (offending (visit_Module body collector_init))) [] {})
             (splitlines source)))"
  by (simp add: fix_move_imports_to_top_def Let_def)

lemma fix_cases:
  assumes "fix_move_imports_to_top parse source dd = Inr out"
  shows "out = source \<or> endswith out [CHR 0x0A]"
proof (cases "parse source")
  case None
  with assms show ?thesis by (simp add: fix_move_imports_to_top_def)
next
  case (Some body)
  define col where "col = visit_Module body collector_init"
  define spans where "spans = map (span_of (splitlines source)) (offending col)"
  define moved where "moved = moved_loop dd spans [] {}"
  have u: "fix_move_imports_to_top parse source dd =
     (if offending col = [] then Inr source
      else if moved = [] then Inr source
      else Inr (relocate body (module_docstring_end col) spans moved (splitlines source)))"
    using Some by (simp add: fix_unfold col_def spans_def moved_def)
  show ?thesis
  proof (cases "offending col = []")
    case True
    with assms u show ?thesis by simp
  next
    case False
    note nonempty = this
    show ?thesis
    proof (cases "moved = []")
      case True
      with assms u nonempty show ?thesis by simp
    next
      case False
      with assms u nonempty
      have out: "out = relocate body (module_docstring_end col) spans moved (splitlines source)"
        by simp
      have "[] \<notin> set moved"
        unfolding moved_def by (rule moved_loop_all_nonempty) simp
      with False have "concat moved \<noteq> []"
        by (rule concat_nonempty)
      then have "endswith out [CHR 0x0A]"
        unfolding out by (rule relocate_endswith)
      then show ?thesis by simp
    qed
  qed
qed

lemma run_actions_filter:
  "run_actions parse unsafe acts src =
     run_actions parse unsafe (filter (\<lambda>p. fst p = ''move_imports_to_top'') acts) src"
  by (induction acts arbitrary: src) (auto split: sum.splits)

lemma collect_actions_filter:
  "filter (\<lambda>p. fst p = ''move_imports_to_top'') (collect_actions rs acc seen) =
     filter (\<lambda>p. fst p = ''move_imports_to_top'') acc @
       (if ''move_imports_to_top'' \<in> seen then []
        else (case find is_move rs of None \<Rightarrow> []
              | Some r \<Rightarrow> [(''move_imports_to_top'', dedupe (the (autofix r)))]))"
  by (induction rs arbitrary: acc seen) (auto simp: is_move_def split: option.splits)

lemma apply_fixes_eq:
  "apply_fixes parse src ruleset unsafe =
     (case move_action ruleset of None \<Rightarrow> Inr src
      | Some dd \<Rightarrow> fix_move_imports_to_top parse src dd)"
proof -
  have "apply_fixes parse src ruleset unsafe =
      run_actions parse unsafe
        (filter (\<lambda>p. fst p = ''move_imports_to_top'') (collect_actions (rules ruleset) [] {})) src"
    unfolding apply_fixes_def by (rule run_actions_filter)
  then show ?thesis
    by (simp add: collect_actions_filter move_action_def split: option.splits sum.splits)
qed

text \<open>
  C7, amended. Whenever \<^verbatim>\<open>apply_fixes\<close> succeeds and returns a text that differs from the
  source, that text ends with a line break.
\<close>
theorem apply_fixes_changed_ends_with_newline:
  assumes "apply_fixes parse source ruleset unsafe = Inr out" and "out \<noteq> source"
  shows "endswith out [CHR 0x0A]"
  proof (cases "move_action ruleset")
  case None
  with assms show ?thesis by (simp add: apply_fixes_eq)
next
  case (Some dd)
  with assms have "fix_move_imports_to_top parse source dd = Inr out"
    by (simp add: apply_fixes_eq)
  from fix_cases [OF this] assms(2) show ?thesis by simp
qed

theorem apply_fixes_changed_ends_with_newline_witness:
  "apply_fixes parse_example src_no_final_newline rules_example False
     = Inr ''import os\<newline>\<newline>def f():\<newline>    return os\<newline>''
   \<and> ''import os\<newline>\<newline>def f():\<newline>    return os\<newline>'' \<noteq> src_no_final_newline
   \<and> \<not> endswith src_no_final_newline [CHR 0x0A]
   \<and> endswith ''import os\<newline>\<newline>def f():\<newline>    return os\<newline>'' [CHR 0x0A]"
proof -
  have h1: "apply_fixes parse_example src_no_final_newline rules_example False
     = Inr ''import os\<newline>\<newline>def f():\<newline>    return os\<newline>''"
    by code_simp
  have h2: "''import os\<newline>\<newline>def f():\<newline>    return os\<newline>'' \<noteq> src_no_final_newline"
    by (simp add: src_no_final_newline_def)
  have h3: "\<not> endswith src_no_final_newline [CHR 0x0A]"
    by (simp add: src_no_final_newline_def endswith_def)
  from apply_fixes_changed_ends_with_newline [OF h1 h2] h1 h2 h3 show ?thesis by simp
qed

text \<open>
  C7 as stated fails in both of its parts. The source \<^verbatim>\<open>x = 1\<close>, which has nothing to
  relocate and no final line break, is returned as it is, so the result ends with no line
  break. The source \<open>src_two_final_newlines\<close>, which ends with an empty line, is rewritten
  and the result still ends with that empty line, so it ends with two line breaks.
\<close>

theorem apply_fixes_final_line_breaks_vary:
  "apply_fixes parse_example ''x = 1'' rules_example False = Inr ''x = 1''
   \<and> \<not> endswith ''x = 1'' [CHR 0x0A]
   \<and> apply_fixes parse_example src_two_final_newlines rules_example False
     = Inr ''import os\<newline>\<newline>def f():\<newline>    return os\<newline>\<newline>''
   \<and> endswith ''import os\<newline>\<newline>def f():\<newline>    return os\<newline>\<newline>'' [CHR 0x0A, CHR 0x0A]"
  by code_simp

text \<open>
  C2. The fixer is not idempotent. A function whose body is one import loses its body, and
  the result is no longer accepted by the parser, so the second run raises
  \<^verbatim>\<open>SyntaxError\<close>. A one-line function with an import is moved as a whole line and is
  moved again by the second run, which then replaces the line of one blank that follows it
  by an empty line.
\<close>
theorem apply_fixes_not_idempotent:
  "apply_fixes parse_example src_def_import rules_example False
     = Inr ''import os\<newline>\<newline>def f():\<newline>''
   \<and> apply_fixes parse_example ''import os\<newline>\<newline>def f():\<newline>'' rules_example False
     = Inl SyntaxError
   \<and> apply_fixes parse_example src_whitespace_line rules_example False
     = Inr ''import a\<newline>\<newline>def f(): import os\<newline> \<newline>''
   \<and> apply_fixes parse_example ''import a\<newline>\<newline>def f(): import os\<newline> \<newline>''
       rules_example False
     = Inr ''import a\<newline>\<newline>def f(): import os\<newline>\<newline>''"
  by code_simp

text \<open>
  C1. The two offending imports of line 2 of \<open>src_overlap\<close> have the spans (2, 2) and
  (2, 3). After the deletion of lines 2 to 3 the deletion of line 2 removes the line that
  follows, which holds the import guarded by \<^verbatim>\<open>try\<close>: the result has no line
  \<^verbatim>\<open>try: import json\<close>.
\<close>
theorem apply_fixes_drops_guarded_import:
  "apply_fixes parse_example src_overlap rules_example False
     = Inr ''import os; from sys import (\<newline>import os; from sys import (\<newline>    path)\<newline>\<newline>def f():\<newline>    except ImportError: json = None\<newline>    return os, path, json\<newline>''
   \<and> splitlines src_overlap ! 3 = ''    try: import json\<newline>''
   \<and> unguarded_all False False (the (parse_example src_overlap))
       = [Import 2 (Some 2), ImportFrom 2 (Some 3)]"
  by code_simp

text \<open>
  C3 as stated fails: the import of a one-line function is offending, and the source is
  returned as it is, with the import still inside the function.
\<close>
theorem apply_fixes_one_line_def_unchanged:
  "unguarded_all False False (the (parse_example ''def f(): import os\<newline>''))
     = [Import 1 (Some 1)]
   \<and> apply_fixes parse_example ''def f(): import os\<newline>'' rules_example False
     = Inr ''def f(): import os\<newline>''"
  by code_simp

end
